theory Spec2Isabelle
  imports Main "HOL-Library.Word"
begin

unbundle bit_operations_syntax

section \<open>Machine integers\<close>

text \<open>
  \<^verbatim>\<open>unsigned int\<close> and \<^verbatim>\<open>uint32_t\<close> are \<open>32 word\<close>, \<^verbatim>\<open>uint64_t\<close> is \<open>64 word\<close>, and
  \<^verbatim>\<open>arith_uint256\<close> and \<^verbatim>\<open>uint256\<close> are \<open>256 word\<close> (\<^verbatim>\<open>UintToArith256\<close> reads the 32 bytes
  as a little-endian number, so it is the identity on the magnitude).  Signed values
  (\<^verbatim>\<open>int\<close>, \<^verbatim>\<open>int64_t\<close>) are mathematical integers: signed overflow is undefined in C++, so
  nothing is said about it, but every narrowing conversion of the source is written out.
\<close>

type_synonym uint32_t = "32 word"
type_synonym uint64_t = "64 word"
type_synonym arith_uint256 = "256 word"

text \<open>Conversion of a wider signed value to \<^verbatim>\<open>int\<close>: two's-complement wrap to 32 bits.\<close>

definition to_int32 :: "int \<Rightarrow> int" where
  "to_int32 x = (x + 2 ^ 31) mod 2 ^ 32 - 2 ^ 31"

text \<open>C++ \<^verbatim>\<open>/\<close> and \<^verbatim>\<open>%\<close> on signed integers truncate towards zero.\<close>

definition cdiv :: "int \<Rightarrow> int \<Rightarrow> int" where
  "cdiv a b = sgn a * sgn b * (\<bar>a\<bar> div \<bar>b\<bar>)"

definition cmod :: "int \<Rightarrow> int \<Rightarrow> int" where
  "cmod a b = a - b * cdiv a b"

datatype error = AssertionFailed | NullDereference | DivisionByZero

section \<open>The 256-bit integer and its compact form\<close>

text \<open>
  Modelled from the spec: the class \<^verbatim>\<open>arith_uint256\<close> (\<^verbatim>\<open>arith_uint256.h\<close>) is not part of the
  source file.  The spec describes it as "unsigned 256-bit arithmetic: add, multiply by
  scalar, divide by scalar, compare" and its compact form as a "32-bit packed encoding of a
  256-bit magnitude (3 mantissa bytes + 1 exponent byte with sign bit)" whose "decode
  reports negative-sign and overflow flags".  The definitions below follow these words in
  the layout that the class has in the Bitcoin Core sources, from which \<^verbatim>\<open>pow.cpp\<close> derives:
  the exponent byte is the size in bytes of the magnitude, the mantissa holds its three most
  significant bytes, and bit 23 is the sign.  All arithmetic wraps at 256 bits.
\<close>

text \<open>
  \<^verbatim>\<open>bits()\<close>: the position of the highest set bit plus one, 0 for 0.  The bits are scanned
  from the top.
\<close>

fun bits_below :: "nat \<Rightarrow> arith_uint256 \<Rightarrow> nat" where
  "bits_below 0 v = 0"
| "bits_below (Suc n) v = (if bit v n then Suc n else bits_below n v)"

definition bits :: "arith_uint256 \<Rightarrow> nat" where
  "bits v = bits_below 256 v"

definition GetLow64 :: "arith_uint256 \<Rightarrow> uint64_t" where
  "GetLow64 v = ucast v"

text \<open>
  \<^verbatim>\<open>SetCompact(nCompact, &fNegative, &fOverflow)\<close>: the decoded magnitude, the negative flag
  and the overflow flag.
\<close>

definition SetCompact :: "uint32_t \<Rightarrow> arith_uint256 \<times> bool \<times> bool" where
  "SetCompact nCompact =
     (let nSize = unat (drop_bit 24 nCompact);
          nWord0 = nCompact AND 0x007fffff;
          nWord = (if nSize \<le> 3 then drop_bit (8 * (3 - nSize)) nWord0 else nWord0);
          v = (if nSize \<le> 3 then ucast nWord
               else push_bit (8 * (nSize - 3)) (ucast nWord :: arith_uint256));
          fNegative = (nWord \<noteq> 0 \<and> nCompact AND 0x00800000 \<noteq> 0);
          fOverflow = (nWord \<noteq> 0 \<and> (nSize > 34 \<or> (nWord > 0xff \<and> nSize > 33)
                                       \<or> (nWord > 0xffff \<and> nSize > 32)))
      in (v, fNegative, fOverflow))"

definition decode :: "uint32_t \<Rightarrow> arith_uint256" where
  "decode nCompact = fst (SetCompact nCompact)"

text \<open>\<^verbatim>\<open>GetCompact()\<close> with its default argument \<^verbatim>\<open>fNegative = false\<close>.\<close>

definition GetCompact :: "arith_uint256 \<Rightarrow> uint32_t" where
  "GetCompact v =
     (let nSize = (bits v + 7) div 8;
          nCompact = (if nSize \<le> 3
                      then ucast (push_bit (8 * (3 - nSize)) (GetLow64 v))
                      else ucast (GetLow64 (drop_bit (8 * (nSize - 3)) v)) :: uint32_t);
          shifted = (nCompact AND 0x00800000 \<noteq> 0);
          nCompact = (if shifted then drop_bit 8 nCompact else nCompact);
          nSize = (if shifted then nSize + 1 else nSize)
      in nCompact OR push_bit 24 (of_nat nSize))"

text \<open>
  Multiplication by a scalar, \<^verbatim>\<open>operator*=(uint32_t)\<close>: the scalar is 32 bits wide, so the
  \<^verbatim>\<open>int64_t\<close> argument of line 92 is narrowed to it, and the product wraps at 256 bits.
  Division, \<^verbatim>\<open>operator/=(const base_uint&)\<close>, throws on a zero divisor.
\<close>

definition mul_u32 :: "arith_uint256 \<Rightarrow> uint32_t \<Rightarrow> arith_uint256" where
  "mul_u32 a b32 = a * ucast b32"

definition div_u256 :: "arith_uint256 \<Rightarrow> arith_uint256 \<Rightarrow> error + arith_uint256" where
  "div_u256 a b = (if b = 0 then Inl DivisionByZero else Inr (a div b))"

text \<open>The implicit conversion of a signed scalar through \<^verbatim>\<open>base_uint(uint64_t)\<close>.\<close>

definition from_int64 :: "int \<Rightarrow> arith_uint256" where
  "from_int64 x = ucast (of_int x :: uint64_t)"

section \<open>Chain view and consensus parameters\<close>

text \<open>
  \<^verbatim>\<open>CBlockIndex\<close>: the fields the source reads.  \<^verbatim>\<open>pprev\<close> is the pointer to the previous
  block, \<open>None\<close> for the null pointer of the root.
\<close>

datatype CBlockIndex =
  CBlockIndex (nHeight: int) (nTime: uint32_t) (nBits: uint32_t) (pprev: "CBlockIndex option")

datatype CBlockHeader = CBlockHeader (header_nTime: uint32_t)

definition GetBlockTime :: "CBlockIndex \<Rightarrow> int" where
  "GetBlockTime b = uint (nTime b)"

definition header_GetBlockTime :: "CBlockHeader \<Rightarrow> int" where
  "header_GetBlockTime h = uint (header_nTime h)"

text \<open>
  Modelled from the spec: \<^verbatim>\<open>CBlockIndex::GetAncestor\<close> is not part of the source file.  The
  spec: "ancestor at height h denotes the unique such block on the chain ending at the
  given block", reached "by following previous-block links backward"; a height above the
  block's own or below zero has no ancestor.
\<close>

fun ancestor_walk :: "CBlockIndex \<Rightarrow> int \<Rightarrow> CBlockIndex option" where
  "ancestor_walk (CBlockIndex h tm b None) height =
     (if h = height then Some (CBlockIndex h tm b None) else None)"
| "ancestor_walk (CBlockIndex h tm b (Some p)) height =
     (if h = height then Some (CBlockIndex h tm b (Some p)) else ancestor_walk p height)"

definition GetAncestor :: "CBlockIndex \<Rightarrow> int \<Rightarrow> CBlockIndex option" where
  "GetAncestor b height =
     (if height > nHeight b \<or> height < 0 then None else ancestor_walk b height)"

text \<open>
  \<^verbatim>\<open>Consensus::Params\<close>: the fields the source reads.  The two member functions
  \<^verbatim>\<open>DifficultyAdjustmentIntervalAtHeight\<close> and \<^verbatim>\<open>getPowTargetTimespan\<close> are not part of the
  source file and are taken as they come, as functions of the height.
\<close>

record Params =
  powLimit :: arith_uint256
  nPowTargetSpacing :: int
  fPowAllowMinDifficultyBlocks :: bool
  fPowNoRetargeting :: bool
  zawyLWMAHeight :: int
  DifficultyAdjustmentIntervalAtHeight :: "int \<Rightarrow> int"
  getPowTargetTimespan :: "int \<Rightarrow> int"

section \<open>pow.cpp\<close>

subsection \<open>CheckProofOfWork\<close>

definition CheckProofOfWork :: "arith_uint256 \<Rightarrow> uint32_t \<Rightarrow> Params \<Rightarrow> bool" where
  "CheckProofOfWork hash nBits' params =
     (case SetCompact nBits' of (bnTarget, fNegative, fOverflow) \<Rightarrow>
        if fNegative \<or> bnTarget = 0 \<or> fOverflow \<or> bnTarget > powLimit params then False
        else if hash > bnTarget then False
        else True)"

subsection \<open>CalculateNextWorkRequired\<close>

text \<open>The value of \<^verbatim>\<open>bnNew\<close> at line 98, before \<^verbatim>\<open>GetCompact\<close>.\<close>

definition CalculateNextWorkRequired_bnNew ::
  "CBlockIndex \<Rightarrow> int \<Rightarrow> Params \<Rightarrow> error + arith_uint256" where
  "CalculateNextWorkRequired_bnNew pindexLast nFirstBlockTime params =
     (let powTargetTimespan = getPowTargetTimespan params (nHeight pindexLast);
          nActualTimespan = GetBlockTime pindexLast - nFirstBlockTime;
          nActualTimespan = (if nActualTimespan < cdiv powTargetTimespan 4
                             then cdiv powTargetTimespan 4 else nActualTimespan);
          nActualTimespan = (if nActualTimespan > powTargetTimespan * 4
                             then powTargetTimespan * 4 else nActualTimespan);
          bnPowLimit = powLimit params;
          bnNew = decode (nBits pindexLast);
          bnNew = mul_u32 bnNew (of_int nActualTimespan)
      in case div_u256 bnNew (from_int64 powTargetTimespan) of
           Inl e \<Rightarrow> Inl e
         | Inr bnNew \<Rightarrow> Inr (if bnNew > bnPowLimit then bnPowLimit else bnNew))"

definition CalculateNextWorkRequired ::
  "CBlockIndex \<Rightarrow> int \<Rightarrow> Params \<Rightarrow> error + uint32_t" where
  "CalculateNextWorkRequired pindexLast nFirstBlockTime params =
     (if fPowNoRetargeting params then Inr (nBits pindexLast)
      else case CalculateNextWorkRequired_bnNew pindexLast nFirstBlockTime params of
             Inl e \<Rightarrow> Inl e
           | Inr bnNew \<Rightarrow> Inr (GetCompact bnNew))"

subsection \<open>PreLWMAGetNextWorkRequired\<close>

text \<open>
  The loop of lines 56 and 57: \<^verbatim>\<open>pindex\<close> moves to \<^verbatim>\<open>pprev\<close> while there is one, the height is
  not a multiple of the interval and the bits are those of the limit.
\<close>

fun min_difficulty_walk :: "int \<Rightarrow> uint32_t \<Rightarrow> CBlockIndex \<Rightarrow> CBlockIndex" where
  "min_difficulty_walk diffInterval nProofOfWorkLimit (CBlockIndex h tm b None) =
     CBlockIndex h tm b None"
| "min_difficulty_walk diffInterval nProofOfWorkLimit (CBlockIndex h tm b (Some p)) =
     (if cmod h diffInterval \<noteq> 0 \<and> b = nProofOfWorkLimit
      then min_difficulty_walk diffInterval nProofOfWorkLimit p
      else CBlockIndex h tm b (Some p))"

definition PreLWMAGetNextWorkRequired ::
  "CBlockIndex option \<Rightarrow> CBlockHeader \<Rightarrow> Params \<Rightarrow> error + uint32_t" where
  "PreLWMAGetNextWorkRequired pindexLast pblock params =
     (case pindexLast of
        None \<Rightarrow> Inl AssertionFailed
      | Some tip \<Rightarrow>
          let nProofOfWorkLimit = GetCompact (powLimit params);
              diffInterval = DifficultyAdjustmentIntervalAtHeight params (nHeight tip)
          in if diffInterval = 0 then Inl DivisionByZero
             else if cmod (nHeight tip + 1) diffInterval \<noteq> 0 then
               (if fPowAllowMinDifficultyBlocks params then
                  (if header_GetBlockTime pblock
                        > GetBlockTime tip + nPowTargetSpacing params * 2
                   then Inr nProofOfWorkLimit
                   else Inr (nBits (min_difficulty_walk diffInterval nProofOfWorkLimit tip)))
                else Inr (nBits tip))
             else
               let nHeightFirst = to_int32 (nHeight tip - (diffInterval - 1))
               in if \<not> nHeightFirst \<ge> 0 then Inl AssertionFailed
                  else case GetAncestor tip nHeightFirst of
                         None \<Rightarrow> Inl AssertionFailed
                       | Some pindexFirst \<Rightarrow>
                           CalculateNextWorkRequired tip (GetBlockTime pindexFirst) params)"

subsection \<open>LwmaCalculateNextWorkRequired\<close>

definition lwma_N :: int where "lwma_N = 45"
definition lwma_k :: int where "lwma_k = 1377"

text \<open>
  The loop of lines 149 to 163 on the state \<open>(t, j, sum_target)\<close>.  \<^verbatim>\<open>t\<close> is an \<^verbatim>\<open>int\<close> and
  \<^verbatim>\<open>solvetime * j\<close> an \<^verbatim>\<open>int64_t\<close>: the sum is formed in 64 bits and narrowed to \<^verbatim>\<open>int\<close> by the
  assignment.  Dereferencing the null pointer that \<^verbatim>\<open>GetAncestor\<close> returns for a missing
  block is an error.
\<close>

function lwma_loop ::
  "CBlockIndex \<Rightarrow> int \<Rightarrow> int \<Rightarrow> int \<times> int \<times> arith_uint256
     \<Rightarrow> error + int \<times> int \<times> arith_uint256" where
  "lwma_loop pindexLast height i (t, j, sum_target) =
     (if i < height then
        (case GetAncestor pindexLast i of
           None \<Rightarrow> Inl NullDereference
         | Some block \<Rightarrow>
             (case GetAncestor block (i - 1) of
                None \<Rightarrow> Inl NullDereference
              | Some block_Prev \<Rightarrow>
                  let solvetime = GetBlockTime block - GetBlockTime block_Prev;
                      j = j + 1;
                      t = to_int32 (t + solvetime * j);
                      target = decode (nBits block)
                  in (case div_u256 target (from_int64 (lwma_k * lwma_N * lwma_N)) of
                        Inl e \<Rightarrow> Inl e
                      | Inr q \<Rightarrow>
                          lwma_loop pindexLast height (i + 1) (t, j, sum_target + q))))
      else Inr (t, j, sum_target))"
  by pat_completeness auto
termination
  by (relation "measure (\<lambda>(pindexLast, height, i, s). nat (height - i))") auto

declare lwma_loop.simps [simp del]

text \<open>Lines 164 to 167: the floor of \<^verbatim>\<open>t\<close>.\<close>

definition lwma_floor_t :: "int \<Rightarrow> int" where
  "lwma_floor_t t = (if t < cdiv (lwma_N * lwma_k) 3 then cdiv (lwma_N * lwma_k) 3 else t)"

text \<open>The state \<open>(t, j, sum_target)\<close> after the loop, at line 163.\<close>

definition lwma_window :: "CBlockIndex \<Rightarrow> error + int \<times> int \<times> arith_uint256" where
  "lwma_window pindexLast =
     (let height = nHeight pindexLast + 1
      in if \<not> height > lwma_N then Inl AssertionFailed
         else lwma_loop pindexLast height (height - lwma_N) (0, 0, 0))"

text \<open>The value of \<^verbatim>\<open>next_target\<close> at line 175, before \<^verbatim>\<open>GetCompact\<close>.\<close>

definition LwmaCalculateNextWorkRequired_next_target ::
  "CBlockIndex \<Rightarrow> Params \<Rightarrow> error + arith_uint256" where
  "LwmaCalculateNextWorkRequired_next_target pindexLast params =
     (case lwma_window pindexLast of
        Inl e \<Rightarrow> Inl e
      | Inr (t, j, sum_target) \<Rightarrow>
          let t = lwma_floor_t t;
              pow_limit = powLimit params;
              next_target = from_int64 t * sum_target
          in Inr (if next_target > pow_limit then pow_limit else next_target))"

definition LwmaCalculateNextWorkRequired :: "CBlockIndex \<Rightarrow> Params \<Rightarrow> error + uint32_t" where
  "LwmaCalculateNextWorkRequired pindexLast params =
     (if fPowNoRetargeting params then Inr (nBits pindexLast)
      else case LwmaCalculateNextWorkRequired_next_target pindexLast params of
             Inl e \<Rightarrow> Inl e
           | Inr next_target \<Rightarrow> Inr (GetCompact next_target))"

subsection \<open>LwmaGetNextWorkRequired and GetNextWorkRequired\<close>

definition LwmaGetNextWorkRequired ::
  "CBlockIndex \<Rightarrow> CBlockHeader \<Rightarrow> Params \<Rightarrow> error + uint32_t" where
  "LwmaGetNextWorkRequired pindexLast pblock params =
     (if fPowAllowMinDifficultyBlocks params \<and>
         header_GetBlockTime pblock > GetBlockTime pindexLast + nPowTargetSpacing params * 2
      then Inr (GetCompact (powLimit params))
      else LwmaCalculateNextWorkRequired pindexLast params)"

definition GetNextWorkRequired ::
  "CBlockIndex option \<Rightarrow> CBlockHeader \<Rightarrow> Params \<Rightarrow> error + uint32_t" where
  "GetNextWorkRequired pindexLast pblock params =
     (case pindexLast of
        None \<Rightarrow> Inl AssertionFailed
      | Some tip \<Rightarrow>
          let nHeight' = nHeight tip + 1;
              postLWMA = (nHeight' \<ge> zawyLWMAHeight params)
          in if postLWMA = False then PreLWMAGetNextWorkRequired pindexLast pblock params
             else LwmaGetNextWorkRequired tip pblock params)"

section \<open>Notions of the specification\<close>

text \<open>
  The chain that ends at a block: the block itself, then the blocks reached through
  \<^verbatim>\<open>pprev\<close>, down to the root.
\<close>

fun ancestry :: "CBlockIndex \<Rightarrow> CBlockIndex list" where
  "ancestry (CBlockIndex h tm b None) = [CBlockIndex h tm b None]"
| "ancestry (CBlockIndex h tm b (Some p)) = CBlockIndex h tm b (Some p) # ancestry p"

definition chain_root :: "CBlockIndex \<Rightarrow> CBlockIndex" where
  "chain_root b = last (ancestry b)"

text \<open>
  The condition of the backward walk as the specification words it: the height is not a
  multiple of the interval and the bits are the compact form of the limit.
\<close>

definition walk_condition :: "int \<Rightarrow> uint32_t \<Rightarrow> CBlockIndex \<Rightarrow> bool" where
  "walk_condition interval powLimitCompact b =
     (cmod (nHeight b) interval \<noteq> 0 \<and> nBits b = powLimitCompact)"

text \<open>
  A structurally valid chain: the root has height 0 and every other block has the height of
  its previous block plus one.
\<close>

fun valid_chain :: "CBlockIndex \<Rightarrow> bool" where
  "valid_chain (CBlockIndex h tm b None) = (h = 0)"
| "valid_chain (CBlockIndex h tm b (Some p)) = (nHeight p = h - 1 \<and> valid_chain p)"

text \<open>\<open>block[h].timestamp\<close> and the decoded \<open>block[h].bits\<close> on the chain that ends at a block.\<close>

definition timestamp_at :: "CBlockIndex \<Rightarrow> int \<Rightarrow> int" where
  "timestamp_at pindexLast h =
     (case GetAncestor pindexLast h of None \<Rightarrow> 0 | Some b \<Rightarrow> GetBlockTime b)"

definition target_at :: "CBlockIndex \<Rightarrow> int \<Rightarrow> arith_uint256" where
  "target_at pindexLast h =
     (case GetAncestor pindexLast h of None \<Rightarrow> 0 | Some b \<Rightarrow> decode (nBits b))"

text \<open>
  The weighted sum of the solvetimes of the window as a mathematical integer: the sum over
  \<open>j = 1..N\<close> of \<open>(block[height-N-1+j].timestamp - block[height-N-2+j].timestamp) * j\<close>, where
  \<open>height\<close> is the height of the last block plus one.
\<close>

definition weighted_solvetime_sum :: "CBlockIndex \<Rightarrow> int" where
  "weighted_solvetime_sum pindexLast =
     (let height = nHeight pindexLast + 1
      in (\<Sum>j\<leftarrow>[1..lwma_N].
            (timestamp_at pindexLast (height - lwma_N - 1 + j)
             - timestamp_at pindexLast (height - lwma_N - 2 + j)) * j))"

text \<open>The sum of the targets of the window, each divided by \<open>k * N * N\<close> first.\<close>

definition window_target_sum :: "CBlockIndex \<Rightarrow> arith_uint256" where
  "window_target_sum pindexLast =
     (let height = nHeight pindexLast + 1
      in (\<Sum>j\<leftarrow>[1..lwma_N]. target_at pindexLast (height - lwma_N - 1 + j) div 2788425))"

text \<open>The gap of the minimum-difficulty escape.\<close>

definition min_difficulty_gap :: "CBlockIndex \<Rightarrow> CBlockHeader \<Rightarrow> Params \<Rightarrow> bool" where
  "min_difficulty_gap pindexLast pblock params =
     (header_GetBlockTime pblock > GetBlockTime pindexLast + nPowTargetSpacing params * 2)"

section \<open>The compact form in natural numbers\<close>

text \<open>
  The decoded magnitude, the packing of mantissa and size, and the mantissa that
  \<open>GetCompact\<close> extracts, read on the natural numbers the words stand for.
\<close>

definition decode_nat :: "nat \<Rightarrow> nat" where
  "decode_nat c =
     (let s = c div 2 ^ 24; w = c mod 2 ^ 23
      in if s \<le> 3 then w div 2 ^ (8 * (3 - s)) else (w * 2 ^ (8 * (s - 3))) mod 2 ^ 256)"

definition pack_nat :: "nat \<Rightarrow> nat \<Rightarrow> nat" where
  "pack_nat w s = w + s * 2 ^ 24"

definition mantissa_nat :: "nat \<Rightarrow> nat \<Rightarrow> nat" where
  "mantissa_nat s n = (if s \<le> 3 then n * 2 ^ (8 * (3 - s)) else n div 2 ^ (8 * (s - 3)))"

section \<open>Example inputs\<close>

text \<open>
  Parameters of a main network (limit \<open>0x1d00ffff\<close>, two weeks of ten-minute blocks) and of a
  test network that allows minimum-difficulty blocks.
\<close>

definition main_params :: Params where
  "main_params =
     \<lparr>powLimit = 0xffff0000000000000000000000000000000000000000000000000000,
      nPowTargetSpacing = 600,
      fPowAllowMinDifficultyBlocks = False,
      fPowNoRetargeting = False,
      zawyLWMAHeight = 1000000,
      DifficultyAdjustmentIntervalAtHeight = (\<lambda>h. 2016),
      getPowTargetTimespan = (\<lambda>h. 1209600)\<rparr>"

definition test_params :: Params where
  "test_params = main_params\<lparr>fPowAllowMinDifficultyBlocks := True\<rparr>"

definition fixed_params :: Params where
  "fixed_params = main_params\<lparr>fPowNoRetargeting := True\<rparr>"

text \<open>Parameters with a limit of 255 bits, where retargeting is not switched off.\<close>

definition wide_params :: Params where
  "wide_params =
     main_params\<lparr>powLimit :=
       0x7fffff0000000000000000000000000000000000000000000000000000000000\<rparr>"

text \<open>
  The chain of the blocks at heights \<open>0..n\<close> in which the block at height \<open>h\<close> has the time
  \<open>tm h\<close> and the bits \<open>bts h\<close>.
\<close>

fun build_chain :: "(nat \<Rightarrow> uint32_t) \<Rightarrow> (nat \<Rightarrow> uint32_t) \<Rightarrow> nat \<Rightarrow> CBlockIndex" where
  "build_chain tm bts 0 = CBlockIndex 0 (tm 0) (bts 0) None"
| "build_chain tm bts (Suc n) =
     CBlockIndex (int (Suc n)) (tm (Suc n)) (bts (Suc n)) (Some (build_chain tm bts n))"

text \<open>
  Chains of 46 blocks with the bits \<open>0x1c0ffff0\<close>: one with a block every 600 seconds, one
  in which the last block comes 48000000 seconds after its previous block, and two in which
  every block is earlier than its previous block, by 1000000 and by 2074900 seconds.
\<close>

definition steady_chain :: CBlockIndex where
  "steady_chain = build_chain (\<lambda>h. of_nat (600 * h)) (\<lambda>h. 0x1c0ffff0) 45"

definition late_chain :: CBlockIndex where
  "late_chain =
     build_chain (\<lambda>h. if h = 45 then 48026400 else of_nat (600 * h)) (\<lambda>h. 0x1c0ffff0) 45"

definition backward_chain :: CBlockIndex where
  "backward_chain = build_chain (\<lambda>h. of_nat (1000000 * (45 - h))) (\<lambda>h. 0x1c0ffff0) 45"

definition wrap_chain :: CBlockIndex where
  "wrap_chain = build_chain (\<lambda>h. of_nat (2074900 * (45 - h))) (\<lambda>h. 0x1c0ffff0) 45"

text \<open>
  A chain in which the blocks at heights 3 and 2 carry the bits of the limit and the block at
  height 1 does not, a chain in which every block but the root at height 0 carries them,
  and a chain view whose blocks all carry them and that ends above height 0.
\<close>

definition special_chain :: CBlockIndex where
  "special_chain =
     CBlockIndex 3 1800 0x1d00ffff (Some (CBlockIndex 2 1200 0x1d00ffff
       (Some (CBlockIndex 1 600 0x1c0ffff0 (Some (CBlockIndex 0 0 0x1c0ffff0 None))))))"

definition limit_run_chain :: CBlockIndex where
  "limit_run_chain =
     CBlockIndex 3 1800 0x1d00ffff (Some (CBlockIndex 2 1200 0x1d00ffff
       (Some (CBlockIndex 1 600 0x1d00ffff (Some (CBlockIndex 0 0 0x1c0ffff0 None))))))"

definition all_special_chain :: CBlockIndex where
  "all_special_chain =
     CBlockIndex 3 1800 0x1d00ffff (Some (CBlockIndex 2 1200 0x1d00ffff
       (Some (CBlockIndex 1 600 0x1d00ffff None))))"

section \<open>The size in bits\<close>

lemma bit_nat_top:
  assumes "(x::nat) < 2 ^ Suc m"
  shows "bit x m \<longleftrightarrow> 2 ^ m \<le> x"
proof (cases "2 ^ m \<le> x")
  case True
  have "x div 2 ^ m < 2"
    using assms by (simp add: less_mult_imp_div_less mult.commute)
  moreover have "0 < x div 2 ^ m"
    using True by (simp add: div_greater_zero_iff)
  ultimately have "x div 2 ^ m = 1" by simp
  then show ?thesis using True by (simp add: bit_iff_odd)
next
  case False
  then have "x div 2 ^ m = 0" by simp
  then show ?thesis using False by (simp add: bit_iff_odd)
qed

lemma bits_below_spec:
  "unat v < 2 ^ m \<Longrightarrow>
     (if v = 0 then bits_below m v = 0
      else 0 < bits_below m v \<and> 2 ^ (bits_below m v - 1) \<le> unat v
           \<and> unat v < 2 ^ bits_below m v)"
proof (induction m)
  case 0
  then show ?case by (simp add: unat_eq_0)
next
  case (Suc m)
  show ?case
  proof (cases "bit v m")
    case True
    then have "2 ^ m \<le> unat v"
      using Suc.prems by (simp add: bit_unsigned_iff flip: bit_nat_top)
    moreover have "v \<noteq> 0" using True by auto
    ultimately show ?thesis using True Suc.prems by simp
  next
    case False
    then have "unat v < 2 ^ m"
      using Suc.prems bit_nat_top [of "unat v" m] by (simp add: bit_unsigned_iff)
    from Suc.IH [OF this] show ?thesis using False by (auto split: if_splits)
  qed
qed

lemma bits_spec:
  "(if v = 0 then bits v = 0
    else 0 < bits v \<and> 2 ^ (bits v - 1) \<le> unat v \<and> unat v < 2 ^ bits v)"
proof -
  have "unat v < 2 ^ 256"
    using unsigned_less [of v] by simp
  then show ?thesis
    unfolding bits_def by (rule bits_below_spec)
qed

lemma bits_0 [simp]: "bits 0 = 0"
  using bits_spec [of 0] by simp

lemma pow2_window_unique:
  assumes "0 < a" "0 < b" "(2::nat) ^ (a - 1) \<le> x" "x < 2 ^ a" "2 ^ (b - 1) \<le> x" "x < 2 ^ b"
  shows "a = b"
proof -
  have "(2::nat) ^ (a - 1) < 2 ^ b" using assms by linarith
  then have "a - 1 < b" by simp
  moreover have "(2::nat) ^ (b - 1) < 2 ^ a" using assms by linarith
  then have "b - 1 < a" by simp
  ultimately show ?thesis using assms by linarith
qed

lemma bits_eqI:
  assumes "0 < n" "2 ^ (n - 1) \<le> unat v" "unat v < 2 ^ n"
  shows "bits v = n"
proof -
  have "v \<noteq> 0" using assms by auto
  then have "0 < bits v \<and> 2 ^ (bits v - 1) \<le> unat v \<and> unat v < 2 ^ bits v"
    using bits_spec [of v] by simp
  then show ?thesis using assms pow2_window_unique [of "bits v" n "unat v"] by simp
qed

section \<open>Words as natural numbers\<close>

lemma unat_ucast_32_256: "unat (ucast (w :: uint32_t) :: arith_uint256) = unat w"
proof -
  have "unat w < 2 ^ 32" using unsigned_less [of w] by simp
  then have "unat w < 2 ^ 256" by (rule less_le_trans) simp
  then show ?thesis by (simp add: unsigned_ucast_eq take_bit_nat_eq_self)
qed

lemma unat_ucast_64_256: "unat (ucast (w :: uint64_t) :: arith_uint256) = unat w"
proof -
  have "unat w < 2 ^ 64" using unsigned_less [of w] by simp
  then have "unat w < 2 ^ 256" by (rule less_le_trans) simp
  then show ?thesis by (simp add: unsigned_ucast_eq take_bit_nat_eq_self)
qed

lemma unat_of_int_32: "0 \<le> k \<Longrightarrow> k < 2 ^ 32 \<Longrightarrow> unat (word_of_int k :: uint32_t) = nat k"
  by (simp add: unat_eq_nat_uint uint_word_of_int)

lemma unat_of_int_64: "0 \<le> k \<Longrightarrow> k < 2 ^ 64 \<Longrightarrow> unat (word_of_int k :: uint64_t) = nat k"
  by (simp add: unat_eq_nat_uint uint_word_of_int)

lemma unat_from_int64: "0 \<le> k \<Longrightarrow> k < 2 ^ 64 \<Longrightarrow> unat (from_int64 k) = nat k"
  by (simp add: from_int64_def unat_ucast_64_256 unat_of_int_64)

lemma unat_mul_u32:
  assumes "0 \<le> k" "k < 2 ^ 32" "unat a * nat k < 2 ^ 256"
  shows "unat (mul_u32 a (word_of_int k)) = unat a * nat k"
proof -
  have k: "unat (ucast (word_of_int k :: uint32_t) :: arith_uint256) = nat k"
    using assms by (simp add: unat_ucast_32_256 unat_of_int_32)
  have "unat a * unat (ucast (word_of_int k :: uint32_t) :: arith_uint256) < 2 ^ LENGTH(256)"
    using assms k by simp
  then show ?thesis
    unfolding mul_u32_def using k by (simp add: unat_mult_lem [THEN iffD1])
qed

section \<open>Decoding an encoded target\<close>

text \<open>
  Every decoded target is a mantissa below \<open>2^23\<close> shifted by whole bytes, and \<open>GetCompact\<close>
  loses nothing on such a number: decoding the compact form of a decoded target gives the
  target back (\<open>decode_GetCompact_decode\<close>).  The proof reads both functions on natural
  numbers.
\<close>

lemma mask_23: "(0x007fffff :: uint32_t) = mask 23"
  by (simp add: mask_eq_exp_minus_1)

lemma unat_and_7fffff: "unat (c AND (0x007fffff :: uint32_t)) = unat c mod 2 ^ 23"
proof -
  have "unat (c AND mask 23) = unat (take_bit 23 c)"
    by (simp only: take_bit_eq_mask)
  also have "\<dots> = take_bit 23 (unat c)"
    by (rule unsigned_take_bit_eq)
  also have "\<dots> = unat c mod 2 ^ 23"
    by (rule take_bit_eq_mod)
  finally show ?thesis
    by (simp only: mask_23)
qed

lemma unat_drop_bit_word: "unat (drop_bit k (c :: 'a::len word)) = unat c div 2 ^ k"
proof -
  have "unat (drop_bit k c) = drop_bit k (unat c)"
    by (rule unat_drop_bit_eq)
  also have "\<dots> = unat c div 2 ^ k"
    by (rule drop_bit_eq_div)
  finally show ?thesis .
qed

lemma unat_push_bit_word:
  "unat (push_bit k (c :: 'a::len word)) = (unat c * 2 ^ k) mod 2 ^ LENGTH('a)"
proof -
  have "unat (push_bit k c) = take_bit LENGTH('a) (push_bit k (unat c))"
    by (rule unsigned_push_bit_eq)
  also have "\<dots> = (unat c * 2 ^ k) mod 2 ^ LENGTH('a)"
    by (simp only: push_bit_eq_mult take_bit_eq_mod)
  finally show ?thesis .
qed

lemma unat_decode: "unat (decode c) = decode_nat (unat c)"
proof -
  let ?s = "unat c div 2 ^ 24" and ?w = "unat c mod 2 ^ 23"
  have s: "unat (drop_bit 24 c) = ?s"
    by (rule unat_drop_bit_word)
  show ?thesis
  proof (cases "?s \<le> 3")
    case True
    then show ?thesis
      unfolding decode_def SetCompact_def Let_def s decode_nat_def
      by (simp only: if_True fst_conv unat_ucast_32_256 unat_drop_bit_word unat_and_7fffff)
  next
    case False
    then show ?thesis
      unfolding decode_def SetCompact_def Let_def s decode_nat_def
      by (simp only: if_False fst_conv unat_ucast_32_256 unat_push_bit_word unat_and_7fffff)
         simp
  qed
qed

lemma and_push_bit_24:
  assumes "unat (c :: uint32_t) < 2 ^ 24"
  shows "c AND push_bit 24 x = 0"
proof -
  have "unat (take_bit 24 c) = take_bit 24 (unat c)"
    by (rule unsigned_take_bit_eq)
  also have "\<dots> = unat c"
    using assms by (intro take_bit_nat_eq_self) simp
  finally have "take_bit 24 c = c"
    by (simp only: word_unat_eq_iff)
  then have "c AND push_bit 24 x = take_bit 24 c AND push_bit 24 x" by simp
  also have "\<dots> = 0"
    by (rule bit_eqI) (auto simp: bit_simps)
  finally show ?thesis .
qed

lemma unat_pack:
  assumes "unat (c :: uint32_t) < 2 ^ 24" "s < 256"
  shows "unat (c OR push_bit 24 (of_nat s)) = pack_nat (unat c) s"
proof -
  have "c OR push_bit 24 (of_nat s) = c + push_bit 24 (of_nat s)"
    using and_push_bit_24 [OF assms(1)] by (simp add: disjunctive_add_eq_or)
  moreover have p: "unat (push_bit 24 (of_nat s :: uint32_t)) = s * 2 ^ 24"
    using assms(2) unfolding unat_push_bit_word by (simp add: unat_of_nat)
  moreover have "unat c + unat (push_bit 24 (of_nat s :: uint32_t)) < 2 ^ LENGTH(32)"
    using assms unfolding p by simp
  ultimately show ?thesis
    by (simp add: unat_add_lem [THEN iffD1] pack_nat_def)
qed

lemma unat_ucast_small:
  assumes "unat (w :: 'a::len word) < 2 ^ LENGTH('b::len)"
  shows "unat (ucast w :: 'b word) = unat w"
proof -
  have "unat (ucast w :: 'b word) = take_bit LENGTH('b) (unat w)"
    by (rule unsigned_ucast_eq)
  also have "\<dots> = unat w"
    using assms by (rule take_bit_nat_eq_self)
  finally show ?thesis .
qed

lemma sign_bit_test:
  assumes "unat (c :: uint32_t) < 2 ^ 24"
  shows "c AND 0x00800000 \<noteq> 0 \<longleftrightarrow> 2 ^ 23 \<le> unat c"
proof -
  have "(0x00800000 :: uint32_t) = 2 ^ 23" by simp
  then have "c AND 0x00800000 \<noteq> 0 \<longleftrightarrow> bit c 23"
    by (simp only: and_exp_eq_0_iff_not_bit) simp
  also have "\<dots> \<longleftrightarrow> bit (unat c) 23"
    by (simp add: bit_unsigned_iff)
  also have "\<dots> \<longleftrightarrow> 2 ^ 23 \<le> unat c"
    using assms by (intro bit_nat_top) simp
  finally show ?thesis .
qed

lemma nSize_bounds:
  assumes "v \<noteq> 0"
  defines "s \<equiv> (bits v + 7) div 8"
  shows "1 \<le> s" and "s \<le> 32" and "2 ^ (8 * (s - 1)) \<le> unat v" and "unat v < 2 ^ (8 * s)"
proof -
  from bits_spec [of v] assms(1)
  have b: "0 < bits v" "2 ^ (bits v - 1) \<le> unat v" "unat v < 2 ^ bits v"
    by simp_all
  have "unat v < 2 ^ 256" using unsigned_less [of v] by simp
  with b(2) have "(2::nat) ^ (bits v - 1) < 2 ^ 256" by (rule le_less_trans)
  then have "bits v - 1 < 256" by (rule power_less_imp_less_exp [rotated]) simp
  then have b256: "bits v \<le> 256" by simp
  show "1 \<le> s" using b(1) by (simp add: s_def)
  show "s \<le> 32" using b256 by (simp add: s_def)
  have "8 * (s - 1) \<le> bits v - 1" using b(1) by (simp add: s_def)
  then have "(2::nat) ^ (8 * (s - 1)) \<le> 2 ^ (bits v - 1)"
    by (intro power_increasing) simp_all
  then show "2 ^ (8 * (s - 1)) \<le> unat v" using b(2) by (rule le_trans)
  have "bits v \<le> 8 * s" by (simp add: s_def)
  then have "(2::nat) ^ bits v \<le> 2 ^ (8 * s)"
    by (intro power_increasing) simp_all
  with b(3) show "unat v < 2 ^ (8 * s)" by (rule less_le_trans)
qed

lemma mantissa_nat_less:
  assumes "n < 2 ^ (8 * s)"
  shows "mantissa_nat s n < 2 ^ 24"
proof (cases "s \<le> 3")
  case True
  have "n * 2 ^ (8 * (3 - s)) < 2 ^ (8 * s) * 2 ^ (8 * (3 - s))"
    using assms by simp
  also have "\<dots> = 2 ^ (8 * s + 8 * (3 - s))"
    by (simp only: power_add)
  also have "8 * s + 8 * (3 - s) = 24"
    using True by simp
  finally show ?thesis using True by (simp add: mantissa_nat_def)
next
  case False
  have "8 * s = 8 * (s - 3) + 24"
    using False by simp
  then have "(2::nat) ^ (8 * s) = 2 ^ (8 * (s - 3)) * 2 ^ 24"
    by (simp only: power_add)
  then have "n div 2 ^ (8 * (s - 3)) < 2 ^ 24"
    using assms by (simp add: less_mult_imp_div_less mult.commute)
  then show ?thesis using False by (simp add: mantissa_nat_def)
qed

lemma unat_GetCompact:
  assumes "v \<noteq> 0"
  defines "s \<equiv> (bits v + 7) div 8"
  defines "c0 \<equiv> mantissa_nat s (unat v)"
  shows "unat (GetCompact v) =
           (if 2 ^ 23 \<le> c0 then pack_nat (c0 div 256) (s + 1) else pack_nat c0 s)"
proof -
  note sb = nSize_bounds [OF assms(1), folded s_def]
  have c0: "c0 < 2 ^ 24"
    unfolding c0_def using sb(4) by (rule mantissa_nat_less)
  define c0w :: uint32_t where
    "c0w = (if s \<le> 3 then ucast (push_bit (8 * (3 - s)) (GetLow64 v))
            else ucast (GetLow64 (drop_bit (8 * (s - 3)) v)))"
  have c0w: "unat c0w = c0"
  proof (cases "s \<le> 3")
    case True
    then have "(2::nat) ^ (8 * s) \<le> 2 ^ 24" by (intro power_increasing) simp_all
    with sb(4) have n24: "unat v < 2 ^ 24" by (rule less_le_trans)
    then have "unat v < 2 ^ LENGTH(64)" by (rule less_le_trans) simp
    then have low: "unat (GetLow64 v) = unat v"
      unfolding GetLow64_def by (rule unat_ucast_small)
    have c: "c0 = unat v * 2 ^ (8 * (3 - s))" using True by (simp add: c0_def mantissa_nat_def)
    have "unat v * 2 ^ (8 * (3 - s)) < 2 ^ 64"
      using c0 unfolding c by (rule less_le_trans) simp
    then have p: "unat (push_bit (8 * (3 - s)) (GetLow64 v)) = c0"
      unfolding unat_push_bit_word low c by simp
    have "unat (push_bit (8 * (3 - s)) (GetLow64 v)) < 2 ^ LENGTH(32)"
      unfolding p using c0 by (rule less_le_trans) simp
    then have "unat (ucast (push_bit (8 * (3 - s)) (GetLow64 v)) :: uint32_t) = c0"
      unfolding p [symmetric] by (rule unat_ucast_small)
    then show ?thesis using True by (simp add: c0w_def)
  next
    case False
    have c: "c0 = unat v div 2 ^ (8 * (s - 3))" using False by (simp add: c0_def mantissa_nat_def)
    have d: "unat (drop_bit (8 * (s - 3)) v) = c0"
      unfolding c by (rule unat_drop_bit_word)
    have "unat (drop_bit (8 * (s - 3)) v) < 2 ^ LENGTH(64)"
      unfolding d using c0 by (rule less_le_trans) simp
    then have low: "unat (GetLow64 (drop_bit (8 * (s - 3)) v)) = c0"
      unfolding GetLow64_def d [symmetric] by (rule unat_ucast_small)
    have "unat (GetLow64 (drop_bit (8 * (s - 3)) v)) < 2 ^ LENGTH(32)"
      unfolding low using c0 by (rule less_le_trans) simp
    then have "unat (ucast (GetLow64 (drop_bit (8 * (s - 3)) v)) :: uint32_t) = c0"
      unfolding low [symmetric] by (rule unat_ucast_small)
    then show ?thesis using False by (simp add: c0w_def)
  qed
  have sh: "c0w AND 0x00800000 \<noteq> 0 \<longleftrightarrow> 2 ^ 23 \<le> c0"
    using sign_bit_test [of c0w] c0 by (simp add: c0w)
  have G: "GetCompact v =
      (if 2 ^ 23 \<le> c0 then drop_bit 8 c0w OR push_bit 24 (of_nat (s + 1))
       else c0w OR push_bit 24 (of_nat s))"
    unfolding GetCompact_def Let_def s_def [symmetric] c0w_def [symmetric] sh by simp
  show ?thesis
  proof (cases "2 ^ 23 \<le> c0")
    case True
    have d: "unat (drop_bit 8 c0w) = c0 div 256"
      unfolding unat_drop_bit_word c0w by simp
    have "unat (drop_bit 8 c0w) < 2 ^ 24"
      unfolding d using c0 by simp
    moreover have "s + 1 < 256" using sb(2) by simp
    ultimately have "unat (drop_bit 8 c0w OR push_bit 24 (of_nat (s + 1)))
        = pack_nat (c0 div 256) (s + 1)"
      unfolding d [symmetric] by (rule unat_pack)
    then show ?thesis using True by (simp only: G if_True)
  next
    case False
    have "unat c0w < 2 ^ 24" using c0 by (simp add: c0w)
    moreover have "s < 256" using sb(2) by simp
    ultimately have "unat (c0w OR push_bit 24 (of_nat s)) = pack_nat c0 s"
      unfolding c0w [symmetric] by (rule unat_pack)
    then show ?thesis using False by (simp only: G if_False)
  qed
qed

lemma decode_nat_pack:
  assumes "w < 2 ^ 23"
  shows "decode_nat (pack_nat w s) =
           (if s \<le> 3 then w div 2 ^ (8 * (3 - s)) else (w * 2 ^ (8 * (s - 3))) mod 2 ^ 256)"
proof -
  have "w < 2 ^ 24" using assms by simp
  then have d: "pack_nat w s div 2 ^ 24 = s" by (simp add: pack_nat_def)
  have "s * 2 ^ 24 = (2::nat) ^ 23 * (2 * s)" by simp
  then have "pack_nat w s mod 2 ^ 23 = (w + 2 ^ 23 * (2 * s)) mod 2 ^ 23"
    by (simp only: pack_nat_def)
  also have "\<dots> = w mod 2 ^ 23" by (rule mod_mult_self2)
  also have "\<dots> = w" using assms by (rule mod_less)
  finally have m: "pack_nat w s mod 2 ^ 23 = w" .
  show ?thesis
    unfolding decode_nat_def Let_def d m ..
qed

lemma dvd_of_large:
  assumes "n = m * 2 ^ (8 * e)" and "m < 2 ^ 23" and "2 ^ (8 * j + 15) \<le> n"
  shows "(2::nat) ^ (8 * j) dvd n"
proof -
  have "j \<le> e"
  proof (rule ccontr)
    assume "\<not> j \<le> e"
    then have "8 * e + 23 \<le> 8 * j + 15" by simp
    then have le: "(2::nat) ^ (8 * e + 23) \<le> 2 ^ (8 * j + 15)"
      by (intro power_increasing) simp_all
    have "n < 2 ^ 23 * 2 ^ (8 * e)"
      unfolding assms(1) using assms(2) by simp
    also have "\<dots> = 2 ^ (8 * e + 23)"
      by (simp only: power_add mult.commute)
    finally show False using le assms(3) by simp
  qed
  then have "(2::nat) ^ (8 * j) dvd 2 ^ (8 * e)"
    by (intro le_imp_power_dvd) simp
  then show ?thesis
    unfolding assms(1) by (rule dvd_mult)
qed

lemma decode_pack_small:
  assumes "s \<le> 3" and "n * 2 ^ (8 * (3 - s)) < 2 ^ 23"
  shows "decode_nat (pack_nat (n * 2 ^ (8 * (3 - s))) s) = n"
  unfolding decode_nat_pack [OF assms(2)] if_P [OF assms(1)] by simp

lemma decode_pack_small_shifted:
  assumes "s \<le> 2" and "n * 2 ^ (8 * (3 - s)) < 2 ^ 24"
  shows "decode_nat (pack_nat (n * 2 ^ (8 * (3 - s)) div 256) (s + 1)) = n"
proof -
  have "8 * (3 - s) = 8 * (2 - s) + 8" using assms(1) by simp
  then have e: "n * 2 ^ (8 * (3 - s)) = n * 2 ^ (8 * (2 - s)) * 256"
    by (simp only: power_add) simp
  have d: "n * 2 ^ (8 * (3 - s)) div 256 = n * 2 ^ (8 * (2 - s))"
    unfolding e by simp
  have "n * 2 ^ (8 * (3 - s)) div 256 < 2 ^ 23" using assms(2) by simp
  then have w: "n * 2 ^ (8 * (2 - s)) < 2 ^ 23" by (simp only: d)
  have s1: "s + 1 \<le> 3" "3 - (s + 1) = 2 - s" using assms(1) by simp_all
  show ?thesis
    unfolding d decode_nat_pack [OF w] if_P [OF s1(1)] s1(2) by simp
qed

lemma decode_pack_large:
  assumes "3 < s" and "q < 2 ^ 23" and "q * 2 ^ (8 * (s - 3)) < 2 ^ 256"
  shows "decode_nat (pack_nat q s) = q * 2 ^ (8 * (s - 3))"
proof -
  have ns: "\<not> s \<le> 3" using assms(1) by simp
  have "decode_nat (pack_nat q s) = (q * 2 ^ (8 * (s - 3))) mod 2 ^ 256"
    unfolding decode_nat_pack [OF assms(2)] if_not_P [OF ns] ..
  also have "\<dots> = q * 2 ^ (8 * (s - 3))"
    using assms(3) by (rule mod_less)
  finally show ?thesis .
qed

lemma decode_pack_large_shifted:
  assumes "3 \<le> s" and "q < 2 ^ 24" and "256 dvd q" and "q * 2 ^ (8 * (s - 3)) < 2 ^ 256"
  shows "decode_nat (pack_nat (q div 256) (s + 1)) = q * 2 ^ (8 * (s - 3))"
proof -
  have w: "q div 256 < 2 ^ 23" using assms(2) by simp
  have ns: "\<not> s + 1 \<le> 3" using assms(1) by simp
  have e: "8 * (s + 1 - 3) = 8 + 8 * (s - 3)" using assms(1) by simp
  have "q div 256 * 2 ^ (8 * (s + 1 - 3)) = q div 256 * 256 * 2 ^ (8 * (s - 3))"
    unfolding e power_add by simp
  also have "q div 256 * 256 = q"
    using assms(3) by (rule dvd_div_mult_self)
  finally have p: "q div 256 * 2 ^ (8 * (s + 1 - 3)) = q * 2 ^ (8 * (s - 3))" .
  have "decode_nat (pack_nat (q div 256) (s + 1)) = (q div 256 * 2 ^ (8 * (s + 1 - 3))) mod 2 ^ 256"
    unfolding decode_nat_pack [OF w] if_not_P [OF ns] ..
  also have "\<dots> = q * 2 ^ (8 * (s - 3))"
    unfolding p using assms(4) by (rule mod_less)
  finally show ?thesis .
qed

lemma roundtrip_nat:
  assumes n: "n = m * 2 ^ (8 * e)" and m: "m < 2 ^ 23" and n256: "n < 2 ^ 256"
    and lo: "2 ^ (8 * (s - 1)) \<le> n" and hi: "n < 2 ^ (8 * s)"
  defines "c0 \<equiv> mantissa_nat s n"
  shows "decode_nat (if 2 ^ 23 \<le> c0 then pack_nat (c0 div 256) (s + 1) else pack_nat c0 s)
           = n"
proof -
  have c0: "c0 < 2 ^ 24"
    unfolding c0_def using hi by (rule mantissa_nat_less)
  show ?thesis
  proof (cases "s \<le> 3")
    case True
    then have c: "c0 = n * 2 ^ (8 * (3 - s))" by (simp add: c0_def mantissa_nat_def)
    show ?thesis
    proof (cases "2 ^ 23 \<le> c0")
      case big: True
      show ?thesis
      proof (cases "s = 3")
        case True
        then have cn: "c0 = n" by (simp add: c)
        have "(2::nat) ^ (8 * 1 + 15) \<le> n" using big cn by simp
        from dvd_of_large [OF n m this] have dv: "256 dvd c0" by (simp add: cn)
        have "c0 * 2 ^ (8 * (s - 3)) < 2 ^ 256"
          using n256 True by (simp add: cn)
        from decode_pack_large_shifted [OF _ c0 dv this] True
        have "decode_nat (pack_nat (c0 div 256) (s + 1)) = n"
          by (simp add: cn)
        then show ?thesis by (simp only: if_P [OF big])
      next
        case False
        then have s2: "s \<le> 2" using True by simp
        have "decode_nat (pack_nat (c0 div 256) (s + 1)) = n"
          unfolding c using s2 c0 [unfolded c] by (rule decode_pack_small_shifted)
        then show ?thesis by (simp only: if_P [OF big])
      qed
    next
      case small: False
      then have "c0 < 2 ^ 23" by simp
      then have "decode_nat (pack_nat c0 s) = n"
        unfolding c using True by (intro decode_pack_small)
      then show ?thesis by (simp only: if_not_P [OF small])
    qed
  next
    case False
    define k where "k = s - 3"
    have k: "s = k + 3" using False by (simp add: k_def)
    have c: "c0 = n div 2 ^ (8 * k)" using False by (simp add: c0_def mantissa_nat_def k_def)
    have "8 * k + 15 \<le> 8 * (s - 1)" unfolding k by simp
    then have "(2::nat) ^ (8 * k + 15) \<le> 2 ^ (8 * (s - 1))"
      by (intro power_increasing) simp_all
    then have "(2::nat) ^ (8 * k + 15) \<le> n" using lo by (rule le_trans)
    from dvd_of_large [OF n m this] have dv: "(2::nat) ^ (8 * k) dvd n" .
    then have nc: "c0 * 2 ^ (8 * k) = n"
      unfolding c by (rule dvd_div_mult_self)
    have fit: "c0 * 2 ^ (8 * (s - 3)) < 2 ^ 256"
      using n256 by (simp only: nc k_def [symmetric])
    have res: "c0 * 2 ^ (8 * (s - 3)) = n"
      by (simp only: nc k_def [symmetric])
    show ?thesis
    proof (cases "2 ^ 23 \<le> c0")
      case True
      have "(2::nat) ^ (8 * (k + 1) + 15) = 2 ^ 23 * 2 ^ (8 * k)"
        by (simp only: power_add [symmetric]) simp
      also have "\<dots> \<le> c0 * 2 ^ (8 * k)"
        using True by (intro mult_right_mono) simp_all
      finally have "(2::nat) ^ (8 * (k + 1) + 15) \<le> n" by (simp only: nc)
      from dvd_of_large [OF n m this] have "(2::nat) ^ (8 * (k + 1)) dvd c0 * 2 ^ (8 * k)"
        by (simp only: nc)
      moreover have "(2::nat) ^ (8 * (k + 1)) = 256 * 2 ^ (8 * k)"
        by (simp add: power_add)
      ultimately have "256 * 2 ^ (8 * k) dvd c0 * (2::nat) ^ (8 * k)" by simp
      then have dv': "256 dvd c0" by simp
      have "3 \<le> s" using False by simp
      from decode_pack_large_shifted [OF this c0 dv' fit]
      have "decode_nat (pack_nat (c0 div 256) (s + 1)) = n" by (simp only: res)
      then show ?thesis by (simp only: if_P [OF True])
    next
      case small: False
      then have c23: "c0 < 2 ^ 23" by simp
      have "3 < s" using False by simp
      from decode_pack_large [OF this c23 fit]
      have "decode_nat (pack_nat c0 s) = n" by (simp only: res)
      then show ?thesis by (simp only: if_not_P [OF small])
    qed
  qed
qed

lemma GetCompact_0: "GetCompact 0 = 0"
  by (simp add: GetCompact_def GetLow64_def)

lemma decode_0: "decode 0 = 0"
  by (simp add: decode_def SetCompact_def)

lemma decode_GetCompact_mantissa:
  assumes "unat v = m * 2 ^ (8 * e)" and "m < 2 ^ 23"
  shows "decode (GetCompact v) = v"
proof (cases "v = 0")
  case True
  then show ?thesis by (simp add: GetCompact_0 decode_0)
next
  case False
  note sb = nSize_bounds [OF False]
  have n256: "unat v < 2 ^ 256" using unsigned_less [of v] by simp
  have "unat (decode (GetCompact v)) = decode_nat (unat (GetCompact v))"
    by (rule unat_decode)
  also have "\<dots> = unat v"
    unfolding unat_GetCompact [OF False]
    using assms n256 sb(3,4) by (rule roundtrip_nat)
  finally show ?thesis by (simp only: word_unat_eq_iff)
qed

lemma decode_nat_mantissa_form: "\<exists>m e. decode_nat c = m * 2 ^ (8 * e) \<and> m < 2 ^ 23"
proof -
  define s where "s = c div 2 ^ 24"
  define w where "w = c mod 2 ^ 23"
  have w: "w < 2 ^ 23" by (simp add: w_def)
  show ?thesis
  proof (cases "s \<le> 3")
    case True
    have "w div 2 ^ (8 * (3 - s)) \<le> w" by (rule div_le_dividend)
    then have "w div 2 ^ (8 * (3 - s)) < 2 ^ 23" using w by (rule le_less_trans)
    moreover have "decode_nat c = w div 2 ^ (8 * (3 - s)) * 2 ^ (8 * 0)"
      using True by (simp add: decode_nat_def Let_def s_def w_def)
    ultimately show ?thesis by blast
  next
    case False
    define k where "k = 8 * (s - 3)"
    have d: "decode_nat c = (w * 2 ^ k) mod 2 ^ 256"
      using False unfolding decode_nat_def Let_def s_def [symmetric] w_def [symmetric] k_def
      by (simp only: if_False)
    show ?thesis
    proof (cases "k \<le> 256")
      case True
      then have "(2::nat) ^ 256 = 2 ^ k * 2 ^ (256 - k)"
        by (simp only: power_add [symmetric]) simp
      then have "decode_nat c = (2 ^ k * w) mod (2 ^ k * 2 ^ (256 - k))"
        unfolding d by (simp only: mult.commute)
      also have "\<dots> = 2 ^ k * (w mod 2 ^ (256 - k))"
        by (rule mult_mod_right [symmetric])
      finally have "decode_nat c = (w mod 2 ^ (256 - k)) * 2 ^ (8 * (s - 3))"
        by (simp only: mult.commute k_def)
      moreover have "w mod 2 ^ (256 - k) \<le> w" by (rule mod_less_eq_dividend)
      then have "w mod 2 ^ (256 - k) < 2 ^ 23" using w by (rule le_less_trans)
      ultimately show ?thesis by blast
    next
      case False
      then have "256 \<le> k" by simp
      then have "(2::nat) ^ 256 dvd 2 ^ k" by (rule le_imp_power_dvd)
      then have "(2::nat) ^ 256 dvd w * 2 ^ k" by (rule dvd_mult)
      then have "decode_nat c = 0 * 2 ^ (8 * 0)"
        unfolding d by (simp only: dvd_imp_mod_0 mult_zero_left)
      moreover have "(0::nat) < 2 ^ 23" by simp
      ultimately show ?thesis by blast
    qed
  qed
qed

lemma decode_GetCompact_decode: "decode (GetCompact (decode c)) = decode c"
proof -
  from decode_nat_mantissa_form [of "unat c"] obtain m e where
    "unat (decode c) = m * 2 ^ (8 * e)" and "m < 2 ^ 23"
    unfolding unat_decode by blast
  then show ?thesis by (rule decode_GetCompact_mantissa)
qed

section \<open>The example inputs evaluated\<close>

lemma SetCompact_main_limit:
  "SetCompact 0x1d00ffff =
     (0xffff0000000000000000000000000000000000000000000000000000, False, False)"
  by (simp add: SetCompact_def)

lemma GetCompact_main_limit:
  "GetCompact 0xffff0000000000000000000000000000000000000000000000000000 = 0x1d00ffff"
proof -
  have "bits (0xffff0000000000000000000000000000000000000000000000000000) = 224"
    by (rule bits_eqI) simp_all
  then show ?thesis
    by (simp add: GetCompact_def GetLow64_def)
qed

section \<open>CheckProofOfWork\<close>

text \<open>
  Claim C1.  For every hash, compact target and parameters, \<open>CheckProofOfWork\<close> returns true
  if and only if decoding the compact target reports neither the negative flag nor the
  overflow flag, the decoded target is not zero and is at most the limit, and the hash, as
  an unsigned 256-bit number, is at most the decoded target.  The function is total: it
  returns a truth value for every 32-bit pattern.
\<close>

theorem C1_CheckProofOfWork_iff:
  "CheckProofOfWork hash c params \<longleftrightarrow>
     (\<not> fst (snd (SetCompact c)) \<and> \<not> snd (snd (SetCompact c)) \<and> decode c \<noteq> 0
      \<and> decode c \<le> powLimit params \<and> hash \<le> decode c)"
  by (auto simp: CheckProofOfWork_def decode_def split: prod.splits)

section \<open>No retargeting\<close>

text \<open>
  Claim C9.  When \<open>fPowNoRetargeting\<close> is set, \<open>CalculateNextWorkRequired\<close> returns the bits
  of the last block whatever the time of the first block, and
  \<open>LwmaCalculateNextWorkRequired\<close> returns them whatever the times and targets of the window.
\<close>

theorem C9_noRetargeting:
  assumes "fPowNoRetargeting params"
  shows "CalculateNextWorkRequired pindexLast nFirstBlockTime params = Inr (nBits pindexLast)
       \<and> LwmaCalculateNextWorkRequired pindexLast params = Inr (nBits pindexLast)"
  using assms by (simp add: CalculateNextWorkRequired_def LwmaCalculateNextWorkRequired_def)

theorem C9_noRetargeting_witness:
  "fPowNoRetargeting fixed_params
   \<and> CalculateNextWorkRequired (CBlockIndex 2015 1000000 0x1c0ffff0 None) 5 fixed_params
       = Inr 0x1c0ffff0
   \<and> LwmaCalculateNextWorkRequired (CBlockIndex 2015 1000000 0x1c0ffff0 None) fixed_params
       = Inr 0x1c0ffff0"
  using C9_noRetargeting [where params = fixed_params
      and pindexLast = "CBlockIndex 2015 1000000 0x1c0ffff0 None" and nFirstBlockTime = 5]
  by (simp add: fixed_params_def main_params_def)

section \<open>The minimum-difficulty rules\<close>

text \<open>
  Claim C6.  If \<open>fPowAllowMinDifficultyBlocks\<close> is set and the time of the candidate block is
  more than twice the target spacing after the time of the last block, both paths return
  the compact form of the limit: the classic path at a height that is not a retarget
  boundary, and the LWMA path always, before the check of \<open>fPowNoRetargeting\<close> and before
  the weighted sum.
\<close>

theorem C6_min_difficulty_escape:
  assumes "fPowAllowMinDifficultyBlocks params"
    and "header_GetBlockTime pblock > GetBlockTime pindexLast + 2 * nPowTargetSpacing params"
  shows "(DifficultyAdjustmentIntervalAtHeight params (nHeight pindexLast) \<noteq> 0
          \<and> cmod (nHeight pindexLast + 1)
                (DifficultyAdjustmentIntervalAtHeight params (nHeight pindexLast)) \<noteq> 0
          \<longrightarrow> PreLWMAGetNextWorkRequired (Some pindexLast) pblock params
                = Inr (GetCompact (powLimit params)))
       \<and> LwmaGetNextWorkRequired pindexLast pblock params = Inr (GetCompact (powLimit params))"
  using assms
  by (simp add: PreLWMAGetNextWorkRequired_def LwmaGetNextWorkRequired_def Let_def)

theorem C6_min_difficulty_escape_witness:
  "fPowAllowMinDifficultyBlocks test_params
   \<and> header_GetBlockTime (CBlockHeader 3001)
       > GetBlockTime special_chain + 2 * nPowTargetSpacing test_params
   \<and> DifficultyAdjustmentIntervalAtHeight test_params (nHeight special_chain) \<noteq> 0
   \<and> cmod (nHeight special_chain + 1)
         (DifficultyAdjustmentIntervalAtHeight test_params (nHeight special_chain)) \<noteq> 0
   \<and> PreLWMAGetNextWorkRequired (Some special_chain) (CBlockHeader 3001) test_params
       = Inr 0x1d00ffff
   \<and> LwmaGetNextWorkRequired special_chain (CBlockHeader 3001) test_params = Inr 0x1d00ffff"
  using C6_min_difficulty_escape [where params = test_params and pblock = "CBlockHeader 3001"
      and pindexLast = special_chain]
  by (simp add: test_params_def main_params_def special_chain_def header_GetBlockTime_def
      GetBlockTime_def cmod_def cdiv_def GetCompact_main_limit)

lemma ancestry_not_Nil: "ancestry b \<noteq> []"
  by (induction b rule: ancestry.induct) auto

lemma min_difficulty_walk_find:
  "find (\<lambda>b. \<not> walk_condition interval limit b) (ancestry tip) = Some b
   \<Longrightarrow> min_difficulty_walk interval limit tip = b"
  by (induction interval limit tip rule: min_difficulty_walk.induct)
     (auto simp: walk_condition_def split: if_splits)

lemma min_difficulty_walk_root:
  "\<forall>b \<in> set (ancestry tip). walk_condition interval limit b
   \<Longrightarrow> min_difficulty_walk interval limit tip = chain_root tip"
  by (induction interval limit tip rule: min_difficulty_walk.induct)
     (auto simp: walk_condition_def chain_root_def ancestry_not_Nil split: if_splits)

lemma min_difficulty_walk_in_ancestry:
  "min_difficulty_walk interval limit tip \<in> set (ancestry tip)"
  by (induction interval limit tip rule: min_difficulty_walk.induct) auto

lemma nHeight_chain_root: "valid_chain b \<Longrightarrow> nHeight (chain_root b) = 0"
  by (induction b rule: ancestry.induct) (auto simp: chain_root_def ancestry_not_Nil)

text \<open>
  On a structurally valid chain some block breaks the condition of the walk: the root, at
  height 0, at the latest.
\<close>

lemma valid_chain_walk_breaks:
  assumes "valid_chain tip"
  shows "\<exists>b. find (\<lambda>b. \<not> walk_condition interval limit b) (ancestry tip) = Some b"
proof -
  have "chain_root tip \<in> set (ancestry tip)"
    by (simp add: chain_root_def ancestry_not_Nil)
  moreover have "\<not> walk_condition interval limit (chain_root tip)"
    using nHeight_chain_root [OF assms] by (simp add: walk_condition_def cmod_def cdiv_def)
  ultimately have "find (\<lambda>b. \<not> walk_condition interval limit b) (ancestry tip) \<noteq> None"
    by (auto simp: find_None_iff)
  then show ?thesis by auto
qed

lemma pprev_chain_root: "pprev (chain_root b) = None"
  by (induction b rule: ancestry.induct) (auto simp: chain_root_def ancestry_not_Nil)

text \<open>
  Claim C7.  At a height that is not a retarget boundary: if
  \<open>fPowAllowMinDifficultyBlocks\<close> is set and the gap escape does not apply, the function walks
  back from the last block while the height of the current block is not a multiple of the
  interval and its bits are the compact limit, and returns the bits of the first block
  that breaks this condition; if \<open>fPowAllowMinDifficultyBlocks\<close> is not set, it returns the
  bits of the last block.
\<close>

theorem C7_non_boundary:
  assumes "DifficultyAdjustmentIntervalAtHeight params (nHeight pindexLast) = interval"
    and "interval \<noteq> 0"
    and "cmod (nHeight pindexLast + 1) interval \<noteq> 0"
  shows "(fPowAllowMinDifficultyBlocks params
          \<and> \<not> min_difficulty_gap pindexLast pblock params
          \<and> find (\<lambda>b. \<not> walk_condition interval (GetCompact (powLimit params)) b)
                (ancestry pindexLast) = Some b
          \<longrightarrow> PreLWMAGetNextWorkRequired (Some pindexLast) pblock params = Inr (nBits b))
       \<and> (\<not> fPowAllowMinDifficultyBlocks params
          \<longrightarrow> PreLWMAGetNextWorkRequired (Some pindexLast) pblock params
                = Inr (nBits pindexLast))"
  using assms
  by (auto simp: PreLWMAGetNextWorkRequired_def Let_def min_difficulty_gap_def
      dest: min_difficulty_walk_find)

theorem C7_non_boundary_witness:
  "DifficultyAdjustmentIntervalAtHeight test_params (nHeight special_chain) = 2016
   \<and> (2016::int) \<noteq> 0
   \<and> cmod (nHeight special_chain + 1) 2016 \<noteq> 0
   \<and> fPowAllowMinDifficultyBlocks test_params
   \<and> \<not> min_difficulty_gap special_chain (CBlockHeader 2400) test_params
   \<and> find (\<lambda>b. \<not> walk_condition 2016 (GetCompact (powLimit test_params)) b)
         (ancestry special_chain)
       = Some (CBlockIndex 1 600 0x1c0ffff0 (Some (CBlockIndex 0 0 0x1c0ffff0 None)))
   \<and> PreLWMAGetNextWorkRequired (Some special_chain) (CBlockHeader 2400) test_params
       = Inr 0x1c0ffff0"
  using C7_non_boundary [where params = test_params and pindexLast = special_chain
      and interval = 2016 and pblock = "CBlockHeader 2400"
      and b = "CBlockIndex 1 600 0x1c0ffff0 (Some (CBlockIndex 0 0 0x1c0ffff0 None))"]
  by (simp add: test_params_def main_params_def special_chain_def header_GetBlockTime_def
      GetBlockTime_def cmod_def cdiv_def GetCompact_main_limit min_difficulty_gap_def
      walk_condition_def)

lemma min_difficulty_walk_to_root:
  "\<forall>b \<in> set (butlast (ancestry tip)). walk_condition interval limit b
   \<Longrightarrow> min_difficulty_walk interval limit tip = chain_root tip"
  by (induction interval limit tip rule: min_difficulty_walk.induct)
     (auto simp: walk_condition_def chain_root_def ancestry_not_Nil split: if_splits)

text \<open>
  Claim C10.  The backward walk looks for a previous block before it moves to it, so it ends
  on every chain, at a block of the chain whose bits are returned.  If every block above the
  root has a height that is not a multiple of the interval and the bits of the compact
  limit, the walk ends at the root, which has no previous block, and the bits of the root
  are returned, whether or not the root meets the condition of the walk; in particular it
  ends there when the root still meets it.
\<close>

theorem C10_walk_stops_at_root:
  assumes "DifficultyAdjustmentIntervalAtHeight params (nHeight pindexLast) = interval"
    and "interval \<noteq> 0"
    and "cmod (nHeight pindexLast + 1) interval \<noteq> 0"
    and "fPowAllowMinDifficultyBlocks params"
    and "\<not> min_difficulty_gap pindexLast pblock params"
  shows "min_difficulty_walk interval (GetCompact (powLimit params)) pindexLast
           \<in> set (ancestry pindexLast)
       \<and> PreLWMAGetNextWorkRequired (Some pindexLast) pblock params
           = Inr (nBits (min_difficulty_walk interval (GetCompact (powLimit params)) pindexLast))
       \<and> ((\<forall>b \<in> set (butlast (ancestry pindexLast)).
              walk_condition interval (GetCompact (powLimit params)) b)
          \<longrightarrow> min_difficulty_walk interval (GetCompact (powLimit params)) pindexLast
                = chain_root pindexLast
              \<and> pprev (chain_root pindexLast) = None
              \<and> PreLWMAGetNextWorkRequired (Some pindexLast) pblock params
                  = Inr (nBits (chain_root pindexLast)))
       \<and> ((\<forall>b \<in> set (ancestry pindexLast).
              walk_condition interval (GetCompact (powLimit params)) b)
          \<longrightarrow> min_difficulty_walk interval (GetCompact (powLimit params)) pindexLast
                = chain_root pindexLast
              \<and> walk_condition interval (GetCompact (powLimit params)) (chain_root pindexLast)
              \<and> PreLWMAGetNextWorkRequired (Some pindexLast) pblock params
                  = Inr (nBits (chain_root pindexLast)))"
proof -
  let ?limit = "GetCompact (powLimit params)"
  have res: "PreLWMAGetNextWorkRequired (Some pindexLast) pblock params
      = Inr (nBits (min_difficulty_walk interval ?limit pindexLast))"
    using assms by (simp add: PreLWMAGetNextWorkRequired_def Let_def min_difficulty_gap_def)
  have root_in: "chain_root pindexLast \<in> set (ancestry pindexLast)"
    by (simp add: chain_root_def ancestry_not_Nil)
  have part: "min_difficulty_walk interval ?limit pindexLast = chain_root pindexLast"
    if "\<forall>b \<in> set (butlast (ancestry pindexLast)). walk_condition interval ?limit b"
    using that by (rule min_difficulty_walk_to_root)
  have all: "\<forall>b \<in> set (butlast (ancestry pindexLast)). walk_condition interval ?limit b"
    if "\<forall>b \<in> set (ancestry pindexLast). walk_condition interval ?limit b"
    using that by (auto dest: in_set_butlastD)
  show ?thesis
    using res root_in part all min_difficulty_walk_in_ancestry [of interval ?limit pindexLast]
    by (auto simp: pprev_chain_root)
qed

theorem C10_walk_stops_at_root_witness:
  "DifficultyAdjustmentIntervalAtHeight test_params (nHeight limit_run_chain) = 2016
   \<and> (2016::int) \<noteq> 0
   \<and> cmod (nHeight limit_run_chain + 1) 2016 \<noteq> 0
   \<and> fPowAllowMinDifficultyBlocks test_params
   \<and> \<not> min_difficulty_gap limit_run_chain (CBlockHeader 2400) test_params
   \<and> list_all (walk_condition 2016 (GetCompact (powLimit test_params)))
         (butlast (ancestry limit_run_chain))
   \<and> min_difficulty_walk 2016 (GetCompact (powLimit test_params)) limit_run_chain
       = CBlockIndex 0 0 0x1c0ffff0 None
   \<and> chain_root limit_run_chain = CBlockIndex 0 0 0x1c0ffff0 None
   \<and> PreLWMAGetNextWorkRequired (Some limit_run_chain) (CBlockHeader 2400) test_params
       = Inr 0x1c0ffff0
   \<and> list_all (walk_condition 2016 (GetCompact (powLimit test_params)))
         (ancestry all_special_chain)
   \<and> min_difficulty_walk 2016 (GetCompact (powLimit test_params)) all_special_chain
       = CBlockIndex 1 600 0x1d00ffff None
   \<and> chain_root all_special_chain = CBlockIndex 1 600 0x1d00ffff None
   \<and> PreLWMAGetNextWorkRequired (Some all_special_chain) (CBlockHeader 2400) test_params
       = Inr 0x1d00ffff"
  using C10_walk_stops_at_root [where params = test_params and pindexLast = limit_run_chain
      and interval = 2016 and pblock = "CBlockHeader 2400"]
    C10_walk_stops_at_root [where params = test_params and pindexLast = all_special_chain
      and interval = 2016 and pblock = "CBlockHeader 2400"]
  by (simp add: test_params_def main_params_def all_special_chain_def limit_run_chain_def
      header_GetBlockTime_def GetBlockTime_def cmod_def cdiv_def GetCompact_main_limit
      min_difficulty_gap_def walk_condition_def chain_root_def)

section \<open>The LWMA window\<close>

text \<open>
  On a structurally valid chain every block of the window and its previous block are found,
  and the loop leaves the weighted sum of the solvetimes, narrowed to 32 bits at every step,
  and the sum of the divided targets (\<open>lwma_window_valid\<close>).
\<close>

lemma to_int32_add_left: "to_int32 (to_int32 a + b) = to_int32 (a + b)"
proof -
  have "(to_int32 a + b + 2 ^ 31) mod 2 ^ 32 = ((a + 2 ^ 31) mod 2 ^ 32 + b) mod 2 ^ 32"
    by (simp add: to_int32_def algebra_simps)
  also have "\<dots> = (a + 2 ^ 31 + b) mod 2 ^ 32"
    by (rule mod_add_left_eq)
  finally show ?thesis
    by (simp add: to_int32_def algebra_simps)
qed

lemma to_int32_id: "- (2 ^ 31) \<le> x \<Longrightarrow> x < 2 ^ 31 \<Longrightarrow> to_int32 x = x"
  by (simp add: to_int32_def)

lemma to_int32_range: "- (2 ^ 31) \<le> to_int32 x \<and> to_int32 x < 2 ^ 31"
  by (simp add: to_int32_def) 

lemma to_int32_idem: "to_int32 (to_int32 x) = to_int32 x"
  using to_int32_add_left [of x 0] by simp

lemma valid_chain_height: "valid_chain b \<Longrightarrow> 0 \<le> nHeight b"
  by (induction b rule: valid_chain.induct) auto

lemma ancestor_walk_valid:
  "valid_chain b \<Longrightarrow> 0 \<le> i \<Longrightarrow> i \<le> nHeight b \<Longrightarrow>
     \<exists>a. ancestor_walk b i = Some a \<and> nHeight a = i \<and> valid_chain a
         \<and> (\<forall>j. j \<le> i \<longrightarrow> ancestor_walk a j = ancestor_walk b j)"
proof (induction b i rule: ancestor_walk.induct)
  case (1 h tm b height)
  then show ?case by auto
next
  case (2 h tm b p height)
  show ?case
  proof (cases "h = height")
    case True
    then show ?thesis using "2.prems" by auto
  next
    case False
    then have "height \<le> nHeight p" using "2.prems" by auto
    with "2.IH" [OF False] "2.prems" obtain a where
      a: "ancestor_walk p height = Some a" "nHeight a = height" "valid_chain a"
         "\<forall>j. j \<le> height \<longrightarrow> ancestor_walk a j = ancestor_walk p j"
      by auto
    have "\<forall>j. j \<le> height \<longrightarrow> ancestor_walk a j = ancestor_walk (CBlockIndex h tm b (Some p)) j"
      using a(4) False "2.prems" by auto
    then show ?thesis using a False by auto
  qed
qed

lemma GetAncestor_valid:
  assumes "valid_chain b" "0 \<le> i" "i \<le> nHeight b"
  shows "\<exists>a. GetAncestor b i = Some a \<and> nHeight a = i \<and> valid_chain a
         \<and> (\<forall>j. 0 \<le> j \<and> j \<le> i \<longrightarrow> GetAncestor a j = GetAncestor b j)"
proof -
  from ancestor_walk_valid [OF assms] obtain a where
    a: "ancestor_walk b i = Some a" "nHeight a = i" "valid_chain a"
       "\<forall>j. j \<le> i \<longrightarrow> ancestor_walk a j = ancestor_walk b j"
    by auto
  then show ?thesis using assms by (auto simp: GetAncestor_def)
qed

lemma from_int64_kNN: "from_int64 (lwma_k * lwma_N * lwma_N) = 2788425"
  by (simp add: from_int64_def lwma_k_def lwma_N_def)

lemma lwma_loop_valid:
  assumes "valid_chain tip" and "height = nHeight tip + 1"
  shows "int n = height - i \<Longrightarrow> 1 \<le> i \<Longrightarrow> to_int32 t = t \<Longrightarrow>
     lwma_loop tip height i (t, j, s) =
       Inr (to_int32 (t + (\<Sum>h\<leftarrow>[i..height - 1].
                              (timestamp_at tip h - timestamp_at tip (h - 1)) * (j + 1 + (h - i)))),
            j + (height - i),
            s + (\<Sum>h\<leftarrow>[i..height - 1]. target_at tip h div 2788425))"
proof (induction n arbitrary: i t j s)
  case 0
  then have "i = height" by simp
  then show ?case using 0 by (simp add: lwma_loop.simps)
next
  case (Suc n)
  then have i: "i < height" "0 \<le> i" "i \<le> nHeight tip" "0 \<le> i - 1" "i - 1 \<le> i"
    using assms by auto
  from GetAncestor_valid [OF assms(1) i(2,3)] obtain block where
    block: "GetAncestor tip i = Some block" "nHeight block = i" "valid_chain block"
      "\<forall>j. 0 \<le> j \<and> j \<le> i \<longrightarrow> GetAncestor block j = GetAncestor tip j"
    by auto
  have "0 \<le> i - 1" "i - 1 \<le> nHeight tip" using i by auto
  from GetAncestor_valid [OF assms(1) this] obtain prev where
    prev: "GetAncestor tip (i - 1) = Some prev"
    by auto
  have prev': "GetAncestor block (i - 1) = Some prev"
    using block(4) prev i by auto
  have ts: "GetBlockTime block = timestamp_at tip i" "GetBlockTime prev = timestamp_at tip (i - 1)"
       "decode (nBits block) = target_at tip i"
    using block(1) prev by (simp_all add: timestamp_at_def target_at_def)
  have step: "lwma_loop tip height i (t, j, s) =
      lwma_loop tip height (i + 1)
        (to_int32 (t + (timestamp_at tip i - timestamp_at tip (i - 1)) * (j + 1)), j + 1,
         s + target_at tip i div 2788425)"
    using i(1) block(1) prev' ts
    by (subst lwma_loop.simps) (simp add: Let_def div_u256_def from_int64_kNN)
  have n: "int n = height - (i + 1)" "1 \<le> i + 1" using Suc.prems by auto
  have up: "[i..height - 1] = i # [i + 1..height - 1]"
    using i(1) by (simp add: upto_rec1)
  have idx: "\<And>h. j + 1 + 1 + (h - (i + 1)) = j + 1 + (h - i)" by simp
  show ?case
    unfolding step
    apply (subst Suc.IH [OF n to_int32_idem])
    apply (simp add: up idx to_int32_add_left add.assoc)
    done
qed

lemma upto_shift: "[a + c..b + c] = map (\<lambda>j. j + c) [a..b]"
proof (induction a b rule: upto.induct)
  case (1 i j)
  show ?case
  proof (cases "i \<le> j")
    case True
    then have "[i + c..j + c] = (i + c) # [i + 1 + c..j + c]"
      by (simp add: upto_rec1 add.commute add.left_commute)
    moreover have "[i..j] = i # [i + 1..j]" using True by (simp add: upto_rec1)
    ultimately show ?thesis using 1 True by simp
  next
    case False
    then show ?thesis by simp
  qed
qed

lemma lwma_window_valid:
  assumes "valid_chain tip" and "nHeight tip + 1 > lwma_N"
  shows "lwma_window tip =
           Inr (to_int32 (weighted_solvetime_sum tip), lwma_N, window_target_sum tip)"
proof -
  define height where "height = nHeight tip + 1"
  define c where "c = height - lwma_N - 1"
  have N: "0 \<le> lwma_N" by (simp add: lwma_N_def)
  have range: "[height - lwma_N..height - 1] = map (\<lambda>j. j + c) [1..lwma_N]"
    using upto_shift [of 1 c lwma_N] by (simp add: c_def algebra_simps)
  have "lwma_loop tip height (height - lwma_N) (0, 0, 0) =
      Inr (to_int32 (0 + (\<Sum>h\<leftarrow>[height - lwma_N..height - 1].
                       (timestamp_at tip h - timestamp_at tip (h - 1))
                         * (0 + 1 + (h - (height - lwma_N))))),
           0 + (height - (height - lwma_N)),
           0 + (\<Sum>h\<leftarrow>[height - lwma_N..height - 1]. target_at tip h div 2788425))"
    using assms(2) N
    by (intro lwma_loop_valid [where n = "nat lwma_N"] assms(1))
       (simp_all add: height_def to_int32_def)
  also have "\<dots> = Inr (to_int32 (weighted_solvetime_sum tip), lwma_N, window_target_sum tip)"
    unfolding range
    by (simp add: weighted_solvetime_sum_def window_target_sum_def Let_def comp_def c_def
        height_def algebra_simps)
  finally show ?thesis
    using assms(2) by (simp add: lwma_window_def height_def)
qed

lemma nHeight_build_chain [simp]: "nHeight (build_chain tm bts n) = int n"
  by (cases n) simp_all

lemma valid_build_chain [simp]: "valid_chain (build_chain tm bts n)"
  by (induction n) simp_all

lemma ancestor_walk_build_chain:
  "m \<le> n \<Longrightarrow> ancestor_walk (build_chain tm bts n) (int m) = Some (build_chain tm bts m)"
proof (induction n)
  case 0
  then show ?case by simp
next
  case (Suc n)
  then show ?case by (cases "m = Suc n") auto
qed

lemma GetAncestor_build_chain:
  "0 \<le> h \<Longrightarrow> h \<le> int n \<Longrightarrow>
     GetAncestor (build_chain tm bts n) h = Some (build_chain tm bts (nat h))"
  using ancestor_walk_build_chain [of "nat h" n tm bts] by (simp add: GetAncestor_def)

lemma nTime_build_chain [simp]: "nTime (build_chain tm bts n) = tm n"
  by (cases n) simp_all

lemma nBits_build_chain [simp]: "nBits (build_chain tm bts n) = bts n"
  by (cases n) simp_all

lemma timestamp_at_build_chain:
  "0 \<le> h \<Longrightarrow> h \<le> int n \<Longrightarrow> timestamp_at (build_chain tm bts n) h = uint (tm (nat h))"
  by (simp add: timestamp_at_def GetAncestor_build_chain GetBlockTime_def)

lemma target_at_build_chain:
  "0 \<le> h \<Longrightarrow> h \<le> int n \<Longrightarrow> target_at (build_chain tm bts n) h = decode (bts (nat h))"
  by (simp add: target_at_def GetAncestor_build_chain)

lemma upto_1_45: "[1..45::int] = 1 # [2..45]"
  by (simp add: upto_rec1)

lemma weighted_sum_steady: "weighted_solvetime_sum steady_chain = 621000"
  by (simp add: weighted_solvetime_sum_def steady_chain_def lwma_N_def upto_1_45 timestamp_at_build_chain)

lemma weighted_sum_late: "weighted_solvetime_sum late_chain = 2160594000"
  by (simp add: weighted_solvetime_sum_def late_chain_def lwma_N_def upto_1_45 timestamp_at_build_chain)

lemma weighted_sum_backward: "weighted_solvetime_sum backward_chain = - 1035000000"
  by (simp add: weighted_solvetime_sum_def backward_chain_def lwma_N_def upto_1_45 timestamp_at_build_chain)

lemma decode_1c0ffff0:
  "decode 0x1c0ffff0 = 1684970955688206843322279771545249458500681171160885255383610818560"
  by (simp add: decode_def SetCompact_def)

lemma window_target_sum_uniform:
  assumes "45 \<le> n"
  shows "window_target_sum (build_chain tm (\<lambda>h. c) n) = 45 * (decode c div 2788425)"
proof -
  let ?B = "build_chain tm (\<lambda>h. c) n"
  have m: "map (\<lambda>j. target_at ?B (nHeight ?B + 1 - 45 - 1 + j) div 2788425) [1..45]
        = map (\<lambda>j. decode c div 2788425) [1..45]"
    using assms by (intro map_cong refl) (simp add: target_at_build_chain)
  show ?thesis
    unfolding window_target_sum_def Let_def lwma_N_def m
    by (simp add: sum_list_triv)
qed

lemma window_target_sum_examples:
  "window_target_sum steady_chain = 27192301390917563839623654830069385273955961771336807155387860"
  "window_target_sum late_chain = 27192301390917563839623654830069385273955961771336807155387860"
  "window_target_sum backward_chain = 27192301390917563839623654830069385273955961771336807155387860"
  by (simp_all add: steady_chain_def late_chain_def backward_chain_def
      window_target_sum_uniform decode_1c0ffff0)

lemma GetCompact_1c05554f:
  "GetCompact 561656985229402281107426590515083152833560390386961751794536248300 = 0x1c05554f"
proof -
  have "bits 561656985229402281107426590515083152833560390386961751794536248300 = 219"
    by (rule bits_eqI) simp_all
  then show ?thesis
    by (simp add: GetCompact_def GetLow64_def)
qed

text \<open>
  Claim C4, as amended.  On a structurally valid chain with \<open>height > N\<close>, the accumulator
  \<^verbatim>\<open>t\<close> after the loop is the weighted sum of the solvetimes, the sum over \<open>j = 1..N\<close> of
  \<open>(block[height-N-1+j].timestamp - block[height-N-2+j].timestamp) * j\<close>, wrapped to a
  32-bit two's-complement \<^verbatim>\<open>int\<close>; it is the exact sum whenever the sum lies between
  \<open>-2^31\<close> and \<open>2^31 - 1\<close>.  The loop also leaves \<open>j = N\<close> and the sum of the divided
  targets.
\<close>

theorem C4_weighted_sum_wraps:
  assumes "valid_chain pindexLast" and "nHeight pindexLast + 1 > lwma_N"
  shows "lwma_window pindexLast =
           Inr (to_int32 (weighted_solvetime_sum pindexLast), lwma_N,
                window_target_sum pindexLast)
       \<and> (- (2 ^ 31) \<le> weighted_solvetime_sum pindexLast
            \<and> weighted_solvetime_sum pindexLast < 2 ^ 31
          \<longrightarrow> lwma_window pindexLast =
                Inr (weighted_solvetime_sum pindexLast, lwma_N, window_target_sum pindexLast))"
  using lwma_window_valid [OF assms] by (simp add: to_int32_id)

lemma example_chains_valid:
  "valid_chain steady_chain" "valid_chain late_chain" "valid_chain backward_chain"
  "nHeight steady_chain = 45" "nHeight late_chain = 45" "nHeight backward_chain = 45"
  by (simp_all add: steady_chain_def late_chain_def backward_chain_def)

theorem C4_weighted_sum_wraps_witness:
  "valid_chain steady_chain \<and> nHeight steady_chain + 1 > lwma_N
   \<and> - (2 ^ 31) \<le> weighted_solvetime_sum steady_chain
   \<and> weighted_solvetime_sum steady_chain < 2 ^ 31
   \<and> lwma_window steady_chain =
       Inr (621000, 45, 27192301390917563839623654830069385273955961771336807155387860)"
  using C4_weighted_sum_wraps [of steady_chain]
  by (simp add: example_chains_valid weighted_sum_steady window_target_sum_examples lwma_N_def
      to_int32_def)

text \<open>
  The sum is not exact for all timestamps: when the last block of the window comes
  48000000 seconds after its previous block, the weighted sum is 2160594000, above
  \<open>2^31 - 1\<close>, and \<^verbatim>\<open>t\<close> is -2134373296.
\<close>

theorem C4_exact_sum_counterexample:
  "lwma_window late_chain =
     Inr (- 2134373296, 45, 27192301390917563839623654830069385273955961771336807155387860)
   \<and> weighted_solvetime_sum late_chain = 2160594000"
  using lwma_window_valid [of late_chain]
  by (simp add: example_chains_valid weighted_sum_late window_target_sum_examples to_int32_def
      lwma_N_def)

lemma weighted_sum_wrap: "weighted_solvetime_sum wrap_chain = - 2147521500"
  by (simp add: weighted_solvetime_sum_def wrap_chain_def lwma_N_def upto_1_45
      timestamp_at_build_chain)

lemma wrap_chain_facts:
  "valid_chain wrap_chain" "nHeight wrap_chain = 45"
  "window_target_sum wrap_chain = 27192301390917563839623654830069385273955961771336807155387860"
  by (simp_all add: wrap_chain_def window_target_sum_uniform decode_1c0ffff0)

lemma lwma_window_wrap:
  "lwma_window wrap_chain =
     Inr (2147445796, 45, 27192301390917563839623654830069385273955961771336807155387860)"
  using lwma_window_valid [of wrap_chain]
  by (simp add: wrap_chain_facts weighted_sum_wrap to_int32_def lwma_N_def)

lemma lwma_window_backward:
  "lwma_window backward_chain =
     Inr (- 1035000000, 45, 27192301390917563839623654830069385273955961771336807155387860)"
  using lwma_window_valid [of backward_chain]
  by (simp add: example_chains_valid weighted_sum_backward window_target_sum_examples
      to_int32_def lwma_N_def)

lemma floor_value: "cdiv (lwma_N * lwma_k) 3 = 20655"
  by (simp add: cdiv_def lwma_N_def lwma_k_def)

lemma LwmaCalculateNextWorkRequired_window:
  assumes "\<not> fPowNoRetargeting params" and "lwma_window pindexLast = Inr (t, j, sum_target)"
  shows "LwmaCalculateNextWorkRequired pindexLast params =
           Inr (GetCompact (if from_int64 (lwma_floor_t t) * sum_target > powLimit params
                            then powLimit params
                            else from_int64 (lwma_floor_t t) * sum_target))"
  using assms
  by (simp add: LwmaCalculateNextWorkRequired_def LwmaCalculateNextWorkRequired_next_target_def
      Let_def)

text \<open>
  Claim C5, as amended.  The value of \<^verbatim>\<open>t\<close> that is multiplied with \<^verbatim>\<open>sum_target\<close> is at
  least \<open>N * k / 3 = 20655\<close>: whenever the accumulator \<^verbatim>\<open>t\<close> after the loop, which is the
  weighted sum of the solvetimes wrapped to a 32-bit \<^verbatim>\<open>int\<close>, is below 20655, it is replaced
  by 20655 before the multiplication.  On a structurally valid chain with \<open>height > N\<close> this
  is the case whenever the weighted sum lies between \<open>-2^31\<close> and 20654.
\<close>

theorem C5_floor_of_t:
  assumes "\<not> fPowNoRetargeting params"
  shows "(lwma_window pindexLast = Inr (t, j, sum_target)
          \<longrightarrow> 20655 \<le> lwma_floor_t t
              \<and> (t < 20655 \<longrightarrow> lwma_floor_t t = 20655)
              \<and> LwmaCalculateNextWorkRequired pindexLast params =
                  Inr (GetCompact
                         (if from_int64 (lwma_floor_t t) * sum_target > powLimit params
                          then powLimit params
                          else from_int64 (lwma_floor_t t) * sum_target)))
       \<and> (valid_chain pindexLast \<and> nHeight pindexLast + 1 > lwma_N
          \<longrightarrow> lwma_window pindexLast =
                Inr (to_int32 (weighted_solvetime_sum pindexLast), lwma_N,
                     window_target_sum pindexLast)
              \<and> (- (2 ^ 31) \<le> weighted_solvetime_sum pindexLast
                   \<and> weighted_solvetime_sum pindexLast < 20655
                 \<longrightarrow> LwmaCalculateNextWorkRequired pindexLast params =
                       Inr (GetCompact
                              (if from_int64 20655 * window_target_sum pindexLast
                                    > powLimit params
                               then powLimit params
                               else from_int64 20655 * window_target_sum pindexLast))))"
proof -
  have a: "20655 \<le> lwma_floor_t t" "t < 20655 \<longrightarrow> lwma_floor_t t = 20655"
    by (simp_all add: lwma_floor_t_def floor_value)
  have b: "LwmaCalculateNextWorkRequired pindexLast params =
        Inr (GetCompact
               (if from_int64 20655 * window_target_sum pindexLast > powLimit params
                then powLimit params
                else from_int64 20655 * window_target_sum pindexLast))"
    if v: "valid_chain pindexLast" "nHeight pindexLast + 1 > lwma_N"
      and r: "- (2 ^ 31) \<le> weighted_solvetime_sum pindexLast"
        "weighted_solvetime_sum pindexLast < 20655"
  proof -
    have "to_int32 (weighted_solvetime_sum pindexLast) = weighted_solvetime_sum pindexLast"
      using r by (intro to_int32_id) auto
    then have w: "lwma_window pindexLast =
        Inr (weighted_solvetime_sum pindexLast, lwma_N, window_target_sum pindexLast)"
      using lwma_window_valid [OF v] by simp
    have "lwma_floor_t (weighted_solvetime_sum pindexLast) = 20655"
      using r(2) by (simp add: lwma_floor_t_def floor_value)
    then show ?thesis
      using LwmaCalculateNextWorkRequired_window [OF assms w] by simp
  qed
  show ?thesis
    using a b lwma_window_valid [of pindexLast]
      LwmaCalculateNextWorkRequired_window [OF assms, of pindexLast t j sum_target]
    by blast
qed

theorem C5_floor_of_t_witness:
  "\<not> fPowNoRetargeting main_params
   \<and> valid_chain backward_chain \<and> nHeight backward_chain + 1 > lwma_N
   \<and> weighted_solvetime_sum backward_chain = - 1035000000
   \<and> lwma_window backward_chain =
       Inr (- 1035000000, 45, 27192301390917563839623654830069385273955961771336807155387860)
   \<and> lwma_floor_t (- 1035000000) = 20655
   \<and> LwmaCalculateNextWorkRequired backward_chain main_params = Inr 0x1c05554f"
proof -
  have p: "\<not> fPowNoRetargeting main_params"
    by (simp add: main_params_def)
  have l: "powLimit main_params = 0xffff0000000000000000000000000000000000000000000000000000"
    by (simp add: main_params_def)
  show ?thesis
    using C5_floor_of_t [OF p, where pindexLast = backward_chain and t = "- 1035000000"
        and j = 45
        and sum_target = 27192301390917563839623654830069385273955961771336807155387860]
    by (simp add: p l lwma_window_backward example_chains_valid weighted_sum_backward
        window_target_sum_examples lwma_N_def from_int64_def GetCompact_1c05554f)
qed

text \<open>
  A weighted sum below \<open>-2^31\<close> is not always replaced: with solvetimes of -2074900 seconds
  the sum is -2147521500, the accumulator wraps to 2147445796, the floor is not applied and
  the product exceeds the limit, whose compact form is returned.
\<close>

theorem C5_wrapped_sum_counterexample:
  "\<not> fPowNoRetargeting main_params
   \<and> valid_chain wrap_chain \<and> nHeight wrap_chain = 45
   \<and> weighted_solvetime_sum wrap_chain = - 2147521500
   \<and> lwma_window wrap_chain =
       Inr (2147445796, 45, 27192301390917563839623654830069385273955961771336807155387860)
   \<and> lwma_floor_t 2147445796 = 2147445796
   \<and> LwmaCalculateNextWorkRequired wrap_chain main_params = Inr 0x1d00ffff"
proof -
  have p: "\<not> fPowNoRetargeting main_params"
    by (simp add: main_params_def)
  have l: "powLimit main_params = 0xffff0000000000000000000000000000000000000000000000000000"
    by (simp add: main_params_def)
  have f: "lwma_floor_t 2147445796 = 2147445796"
    by (simp add: lwma_floor_t_def floor_value)
  show ?thesis
    using LwmaCalculateNextWorkRequired_window [OF p lwma_window_wrap]
    by (simp add: p l f lwma_window_wrap wrap_chain_facts weighted_sum_wrap from_int64_def
        GetCompact_main_limit)
qed

section \<open>The classic retarget\<close>

text \<open>
  For a positive target timespan, a clamped timespan that fits the 32-bit scalar and a
  product that fits 256 bits, the retarget is the exact quotient, clamped to the limit
  (\<open>CalculateNextWorkRequired_bnNew_exact\<close>).
\<close>

lemma cdiv_4: "0 \<le> x \<Longrightarrow> cdiv x 4 = x div 4"
  by (cases "x = 0") (simp_all add: cdiv_def)

lemma CalculateNextWorkRequired_bnNew_exact:
  assumes tts: "getPowTargetTimespan params (nHeight pindexLast) = tts" "0 < tts" "tts < 2 ^ 64"
    and ts: "ts = max (tts div 4) (min (tts * 4) (GetBlockTime pindexLast - nFirstBlockTime))"
    and ts32: "ts < 2 ^ 32"
    and fit: "unat (decode (nBits pindexLast)) * nat ts < 2 ^ 256"
  shows "CalculateNextWorkRequired_bnNew pindexLast nFirstBlockTime params =
           Inr (min (word_of_nat (unat (decode (nBits pindexLast)) * nat ts div nat tts))
                    (powLimit params))"
proof -
  let ?d = "decode (nBits pindexLast)"
  have clamp: "(let a = GetBlockTime pindexLast - nFirstBlockTime;
                    a = (if a < cdiv tts 4 then cdiv tts 4 else a)
                in if a > tts * 4 then tts * 4 else a) = ts"
    using tts(2) by (auto simp: ts cdiv_4 Let_def)
  have ts_range: "0 \<le> ts"
    using tts(2) by (auto simp: ts)
  have prod: "unat (mul_u32 ?d (word_of_int ts)) = unat ?d * nat ts"
    using ts_range ts32 fit by (intro unat_mul_u32) auto
  have tts64: "unat (from_int64 tts) = nat tts"
    using tts(2,3) by (intro unat_from_int64) auto
  then have nz: "from_int64 tts \<noteq> 0"
    using tts(2) by auto
  have "unat (mul_u32 ?d (word_of_int ts) div from_int64 tts) = unat ?d * nat ts div nat tts"
    by (simp add: unat_div prod tts64)
  then have q: "mul_u32 ?d (word_of_int ts) div from_int64 tts
      = word_of_nat (unat ?d * nat ts div nat tts)"
    by (metis of_nat_unat ucast_id)
  show ?thesis
    using clamp nz
    by (auto simp: CalculateNextWorkRequired_bnNew_def tts(1) Let_def div_u256_def q min_def)
qed

lemma bnNew_le_powLimit:
  "CalculateNextWorkRequired_bnNew pindexLast nFirstBlockTime params = Inr bnNew
   \<Longrightarrow> bnNew \<le> powLimit params"
  by (auto simp: CalculateNextWorkRequired_bnNew_def Let_def div_u256_def split: if_splits)

lemma next_target_le_powLimit:
  "LwmaCalculateNextWorkRequired_next_target pindexLast params = Inr next_target
   \<Longrightarrow> next_target \<le> powLimit params"
  by (auto simp: LwmaCalculateNextWorkRequired_next_target_def Let_def
      split: sum.splits prod.splits if_splits)

text \<open>
  Claim C2, as amended.  When the retarget computation is performed (no
  \<open>fPowNoRetargeting\<close>) and returns, the result of either path is the compact form of a
  target that has been clamped from above: it is at most the limit.  There is no clamp from
  below.
\<close>

theorem C2_upper_clamp_only:
  assumes "\<not> fPowNoRetargeting params"
  shows "(CalculateNextWorkRequired pindexLast nFirstBlockTime params = Inr c
          \<longrightarrow> (\<exists>bnNew. CalculateNextWorkRequired_bnNew pindexLast nFirstBlockTime params
                          = Inr bnNew
                        \<and> c = GetCompact bnNew \<and> bnNew \<le> powLimit params))
       \<and> (LwmaCalculateNextWorkRequired pindexLast params = Inr c'
          \<longrightarrow> (\<exists>next_target. LwmaCalculateNextWorkRequired_next_target pindexLast params
                          = Inr next_target
                        \<and> c' = GetCompact next_target \<and> next_target \<le> powLimit params))"
  using assms
  by (auto simp: CalculateNextWorkRequired_def LwmaCalculateNextWorkRequired_def
      bnNew_le_powLimit next_target_le_powLimit split: sum.splits)

lemma decode_01010000: "decode 0x01010000 = 1"
  by (simp add: decode_def SetCompact_def)

text \<open>
  The target before the encoding can be zero: from a last block whose target is 1 and a
  timespan at the floor of a quarter, the classic path computes \<open>1 * 302400 / 1209600 = 0\<close>
  and returns the compact form of zero.
\<close>

theorem C2_zero_target_counterexample:
  "decode 0x01010000 = 1
   \<and> CalculateNextWorkRequired_bnNew (CBlockIndex 2015 0 0x01010000 None) 0 main_params = Inr 0
   \<and> CalculateNextWorkRequired (CBlockIndex 2015 0 0x01010000 None) 0 main_params
       = Inr (GetCompact 0)
   \<and> GetCompact 0 = 0"
  by (simp add: CalculateNextWorkRequired_def CalculateNextWorkRequired_bnNew_def
      main_params_def decode_01010000 GetCompact_0 GetBlockTime_def cdiv_def mul_u32_def
      div_u256_def from_int64_def)

lemma GetCompact_1c03fffc:
  "GetCompact 421242738922051710830569942886312364625170292790221313845902704640 = 0x1c03fffc"
proof -
  have "bits 421242738922051710830569942886312364625170292790221313845902704640 = 218"
    by (rule bits_eqI) simp_all
  then show ?thesis
    by (simp add: GetCompact_def GetLow64_def)
qed

lemma GetCompact_1d00a058:
  "GetCompact 16886419163759807144406289649473088255126652260000157243495861060000
     = 0x1d00a058"
proof -
  have "bits 16886419163759807144406289649473088255126652260000157243495861060000 = 224"
    by (rule bits_eqI) simp_all
  then show ?thesis
    by (simp add: GetCompact_def GetLow64_def)
qed

lemma GetCompact_1e0cdebb:
  "GetCompact 88825840654958936397395754230884274029418918033154153821373176840943701
     = 0x1e0cdebb"
proof -
  have "bits 88825840654958936397395754230884274029418918033154153821373176840943701 = 236"
    by (rule bits_eqI) simp_all
  then show ?thesis
    by (simp add: GetCompact_def GetLow64_def)
qed


lemma decode_207fffff:
  "decode 0x207fffff = 0x7fffff0000000000000000000000000000000000000000000000000000000000"
  by (simp add: decode_def SetCompact_def)

lemma bnNew_quarter:
  "CalculateNextWorkRequired_bnNew (CBlockIndex 2015 151200 0x1c0ffff0 None) 0 main_params
     = Inr 421242738922051710830569942886312364625170292790221313845902704640"
  by (simp add: CalculateNextWorkRequired_bnNew_def main_params_def decode_1c0ffff0
      GetBlockTime_def cdiv_def mul_u32_def div_u256_def from_int64_def)

lemma next_target_steady:
  "LwmaCalculateNextWorkRequired_next_target steady_chain main_params
     = Inr 16886419163759807144406289649473088255126652260000157243495861060000"
proof -
  have "lwma_window steady_chain =
      Inr (621000, 45, 27192301390917563839623654830069385273955961771336807155387860)"
    using lwma_window_valid [of steady_chain]
    by (simp add: example_chains_valid weighted_sum_steady window_target_sum_examples
        to_int32_def lwma_N_def)
  then show ?thesis
    by (simp add: LwmaCalculateNextWorkRequired_next_target_def lwma_floor_t_def cdiv_def
        lwma_N_def lwma_k_def from_int64_def main_params_def)
qed

theorem C2_upper_clamp_only_witness:
  "\<not> fPowNoRetargeting main_params
   \<and> CalculateNextWorkRequired (CBlockIndex 2015 151200 0x1c0ffff0 None) 0 main_params
       = Inr 0x1c03fffc
   \<and> CalculateNextWorkRequired_bnNew (CBlockIndex 2015 151200 0x1c0ffff0 None) 0 main_params
       = Inr 421242738922051710830569942886312364625170292790221313845902704640
   \<and> (421242738922051710830569942886312364625170292790221313845902704640 :: arith_uint256)
       \<le> powLimit main_params
   \<and> LwmaCalculateNextWorkRequired steady_chain main_params = Inr 0x1d00a058
   \<and> LwmaCalculateNextWorkRequired_next_target steady_chain main_params
       = Inr 16886419163759807144406289649473088255126652260000157243495861060000
   \<and> (16886419163759807144406289649473088255126652260000157243495861060000 :: arith_uint256)
       \<le> powLimit main_params"
  using C2_upper_clamp_only [where params = main_params
      and pindexLast = "CBlockIndex 2015 151200 0x1c0ffff0 None" and nFirstBlockTime = 0
      and c = "0x1c03fffc"]
    C2_upper_clamp_only [where params = main_params and pindexLast = steady_chain
      and c' = "0x1d00a058"]
  by (simp add: CalculateNextWorkRequired_def LwmaCalculateNextWorkRequired_def bnNew_quarter
      next_target_steady GetCompact_1c03fffc GetCompact_1d00a058)
     (simp add: main_params_def)




lemma decode_1e0cdebb:
  "decode 0x1e0cdebb = 0xcdebb000000000000000000000000000000000000000000000000000000"
  by (simp add: decode_def SetCompact_def)

lemma decode_1e00ffff:
  "decode 0x1e00ffff = 0xffff000000000000000000000000000000000000000000000000000000"
  by (simp add: decode_def SetCompact_def)

lemma bnNew_above_limit:
  "CalculateNextWorkRequired_bnNew (CBlockIndex 2015 1209600 0x1e00ffff None) 0 main_params
     = Inr 0xffff0000000000000000000000000000000000000000000000000000"
  by (simp add: CalculateNextWorkRequired_bnNew_def main_params_def decode_1e00ffff
      GetBlockTime_def cdiv_def mul_u32_def div_u256_def from_int64_def)

text \<open>
  Claim C8, as amended.  Without \<open>fPowNoRetargeting\<close>, for a target timespan with
  \<open>0 < targetTimespan < 2^32\<close>: if the actual timespan equals the target timespan, the decoded
  target of the last block is at most the limit, and the product of that target and the
  timespan is below \<open>2^256\<close>, then \<open>CalculateNextWorkRequired\<close> returns compact bits that
  decode to the target that the bits of the last block decode to.
\<close>

theorem C8_steady_state:
  assumes "\<not> fPowNoRetargeting params"
    and "getPowTargetTimespan params (nHeight pindexLast) = tts"
    and "0 < tts" and "tts < 2 ^ 32"
    and "GetBlockTime pindexLast - nFirstBlockTime = tts"
    and "decode (nBits pindexLast) \<le> powLimit params"
    and "unat (decode (nBits pindexLast)) * nat tts < 2 ^ 256"
  shows "CalculateNextWorkRequired pindexLast nFirstBlockTime params
           = Inr (GetCompact (decode (nBits pindexLast)))
       \<and> decode (GetCompact (decode (nBits pindexLast))) = decode (nBits pindexLast)"
proof -
  have ts: "tts = max (tts div 4) (min (tts * 4) (GetBlockTime pindexLast - nFirstBlockTime))"
    using assms(3,5) by auto
  have "tts < 2 ^ 64" using assms(4) by simp
  from CalculateNextWorkRequired_bnNew_exact [OF assms(2,3) this ts assms(4,7)]
  have "CalculateNextWorkRequired_bnNew pindexLast nFirstBlockTime params
      = Inr (min (decode (nBits pindexLast)) (powLimit params))"
    using assms(3) by simp
  then have "CalculateNextWorkRequired pindexLast nFirstBlockTime params
      = Inr (GetCompact (decode (nBits pindexLast)))"
    using assms(1,6) by (simp add: CalculateNextWorkRequired_def min_def)
  then show ?thesis
    by (simp add: decode_GetCompact_decode)
qed

theorem C8_steady_state_witness:
  "\<not> fPowNoRetargeting main_params
   \<and> getPowTargetTimespan main_params (nHeight (CBlockIndex 2015 1209600 0x1c0ffff0 None))
       = 1209600
   \<and> GetBlockTime (CBlockIndex 2015 1209600 0x1c0ffff0 None) - 0 = 1209600
   \<and> decode (nBits (CBlockIndex 2015 1209600 0x1c0ffff0 None)) \<le> powLimit main_params
   \<and> unat (decode (nBits (CBlockIndex 2015 1209600 0x1c0ffff0 None))) * nat 1209600 < 2 ^ 256
   \<and> CalculateNextWorkRequired (CBlockIndex 2015 1209600 0x1c0ffff0 None) 0 main_params
       = Inr (GetCompact (decode 0x1c0ffff0))
   \<and> decode (GetCompact (decode 0x1c0ffff0)) = decode 0x1c0ffff0"
  using C8_steady_state [where params = main_params
      and pindexLast = "CBlockIndex 2015 1209600 0x1c0ffff0 None" and nFirstBlockTime = 0
      and tts = 1209600]
  by (simp add: main_params_def GetBlockTime_def decode_1c0ffff0)

text \<open>
  The fixed point fails when the product wraps at 256 bits (last bits \<open>0x207fffff\<close>, at the
  limit of the parameters, give \<open>0x1e0cdebb\<close>) and when the target of the last block is
  above the limit (last bits \<open>0x1e00ffff\<close> give the limit \<open>0x1d00ffff\<close>).
\<close>

theorem C8_fixed_point_counterexample:
  "\<not> fPowNoRetargeting wide_params
   \<and> GetBlockTime (CBlockIndex 2015 1209600 0x207fffff None) - 0
       = getPowTargetTimespan wide_params 2015
   \<and> decode 0x207fffff \<le> powLimit wide_params
   \<and> CalculateNextWorkRequired (CBlockIndex 2015 1209600 0x207fffff None) 0 wide_params
       = Inr 0x1e0cdebb
   \<and> decode 0x1e0cdebb \<noteq> decode 0x207fffff
   \<and> \<not> fPowNoRetargeting main_params
   \<and> GetBlockTime (CBlockIndex 2015 1209600 0x1e00ffff None) - 0
       = getPowTargetTimespan main_params 2015
   \<and> CalculateNextWorkRequired (CBlockIndex 2015 1209600 0x1e00ffff None) 0 main_params
       = Inr 0x1d00ffff
   \<and> decode 0x1d00ffff \<noteq> decode 0x1e00ffff"
proof -
  have a: "CalculateNextWorkRequired (CBlockIndex 2015 1209600 0x207fffff None) 0 wide_params
       = Inr 0x1e0cdebb"
    by (simp add: CalculateNextWorkRequired_def CalculateNextWorkRequired_bnNew_def
      wide_params_def main_params_def decode_207fffff GetCompact_1e0cdebb
      GetBlockTime_def cdiv_def mul_u32_def div_u256_def from_int64_def)
  have b: "CalculateNextWorkRequired (CBlockIndex 2015 1209600 0x1e00ffff None) 0 main_params
       = Inr 0x1d00ffff"
    by (simp add: CalculateNextWorkRequired_def bnNew_above_limit GetCompact_main_limit)
       (simp add: main_params_def)
  have c: "decode 0x1d00ffff = 0xffff0000000000000000000000000000000000000000000000000000"
    by (simp add: decode_def SetCompact_main_limit)
  show ?thesis
    unfolding a b
    by (simp add: decode_1e0cdebb decode_207fffff decode_1e00ffff c)
       (simp add: wide_params_def main_params_def GetBlockTime_def)
qed

end
